theory Spec2Isabelle
  imports Main "HOL-Library.Word"
begin

section \<open>The memcached handler of rend (handlers/memcached/std/handler.go)\<close>

text \<open>
  The handler owns one connection, seen through a buffered reader and a buffered writer
  (Go's \<open>bufio.ReadWriter\<close>). Every method is modelled as a function from the state
  reachable from the handler to the values it returns and the new state. Go's \<open>error\<close>
  results are \<open>error option\<close> (\<open>None\<close> is \<open>nil\<close>), a run-time panic is an
  outcome of its own, and the two channels of a batched get are the list of the events
  that the background task puts on them, in program order.
\<close>

subsection \<open>Data model\<close>

type_synonym byte = "8 word"
type_synonym uint16 = "16 word"
type_synonym uint32 = "32 word"
type_synonym uint64 = "64 word"

text \<open>
  Go compares errors by identity. \<open>ErrKeyNotFound\<close> and \<open>ErrKeyExists\<close> are the two
  sentinels of package \<open>common\<close> that the handler's comments name; \<open>ErrStatus\<close> stands
  for any other classified status, \<open>ErrEOF\<close>, \<open>ErrClosed\<close> and \<open>ErrIO\<close> for what a
  stream reports.
\<close>

datatype error =
    ErrKeyNotFound
  | ErrKeyExists
  | ErrStatus uint16
  | ErrEOF
  | ErrClosed
  | ErrIO nat

record SetRequest =
  Key :: "byte list"
  Flags :: uint32
  Exptime :: uint32
  Data :: "byte list"

record GetRequest =
  Keys :: "byte list list"
  Opaques :: "uint32 list"
  Quiet :: "bool list"

record GATRequest =
  gat_Key :: "byte list"
  gat_Exptime :: uint32
  gat_Opaque :: uint32

text \<open>
  A payload is \<open>None\<close> for Go's \<open>nil\<close> slice. The zero value \<open>GetResponse{}\<close> that the
  error paths of \<open>GAT\<close> return is \<open>zeroGetResponse\<close>.
\<close>

record GetResponse =
  res_Miss :: bool
  res_Quiet :: bool
  res_Opaque :: uint32
  res_Flags :: uint32
  res_Key :: "byte list"
  res_Data :: "byte list option"

record GetEResponse =
  rese_Miss :: bool
  rese_Quiet :: bool
  rese_Opaque :: uint32
  rese_Flags :: uint32
  rese_Exptime :: uint32
  rese_Key :: "byte list"
  rese_Data :: "byte list option"

definition zeroGetResponse :: GetResponse where
  "zeroGetResponse =
     \<lparr>res_Miss = False, res_Quiet = False, res_Opaque = 0, res_Flags = 0,
      res_Key = [], res_Data = None\<rparr>"

text \<open>
  Modelled from the spec: the declaration of \<open>binprot.ResponseHeader\<close> is not part of the
  handler's file. The handler reads \<open>TotalBodyLength\<close> only, and converts it with
  \<open>int(...)\<close>, so it is an unsigned machine integer; the other fields are the ones the
  specification lists (status code, extra and key lengths, opaque token, CAS value).
  The type is a struct passed and returned by value (\<open>binprot.ResponseHeader{}\<close> is its
  zero value).
\<close>

record ResponseHeader =
  Status :: uint16
  KeyLength :: uint16
  ExtraLength :: byte
  TotalBodyLength :: uint32
  OpaqueToken :: uint32
  CASToken :: uint64

definition zeroResponseHeader :: ResponseHeader where
  "zeroResponseHeader =
     \<lparr>Status = 0, KeyLength = 0, ExtraLength = 0, TotalBodyLength = 0,
      OpaqueToken = 0, CASToken = 0\<rparr>"

subsection \<open>The buffered streams over the connection\<close>

text \<open>
  The connection is full duplex. Its inbound half is reachable through the buffered
  reader only and its outbound half through the buffered writer only, so each view
  carries its half of the connection:
  \<^item> \<open>rbuf\<close> are the bytes already fetched into the reader's buffer, \<open>incoming\<close> the
    bytes the server will still deliver, \<open>rd_fail\<close> the error the connection reports
    once they are used up (\<open>io.EOF\<close> for an orderly shutdown);
  \<^item> \<open>wbuf\<close> are the bytes written but not flushed, \<open>werr\<close> the writer's sticky
    error, \<open>sent\<close> the bytes the connection has accepted, \<open>wr_fail\<close> the error with
    which the connection refuses a write, if it does;
  \<^item> \<open>rd_closed\<close> and \<open>wr_closed\<close> are the two views of the one \<open>Close\<close>.
\<close>

record bufio_Reader =
  rbuf :: "byte list"
  incoming :: "byte list"
  rd_fail :: error
  rd_closed :: bool

record bufio_Writer =
  wbuf :: "byte list"
  werr :: "error option"
  sent :: "byte list"
  wr_fail :: "error option"
  wr_closed :: bool

record ReadWriter =
  Reader :: bufio_Reader
  Writer :: bufio_Writer

record Handler =
  rw :: ReadWriter
  close_result :: "error option"

definition defaultBufSize :: nat where
  "defaultBufSize = 4096"

text \<open>A write to the connection itself: all of the bytes are accepted, or none.\<close>

definition conn_Write :: "byte list \<Rightarrow> bufio_Writer \<Rightarrow> error option \<times> bufio_Writer" where
  "conn_Write p w =
     (if wr_closed w then (Some ErrClosed, w)
      else (case wr_fail w of
              Some e \<Rightarrow> (Some e, w)
            | None \<Rightarrow> (None, w\<lparr>sent := sent w @ p\<rparr>)))"

text \<open>\<open>bufio.Writer.Flush\<close>: the sticky error first, then the buffer goes to the connection.\<close>

definition Flush :: "bufio_Writer \<Rightarrow> error option \<times> bufio_Writer" where
  "Flush w =
     (case werr w of
        Some e \<Rightarrow> (Some e, w)
      | None \<Rightarrow>
          if wbuf w = [] then (None, w)
          else (case conn_Write (wbuf w) w of
                  (Some e, w') \<Rightarrow> (Some e, w'\<lparr>werr := Some e\<rparr>)
                | (None, w') \<Rightarrow> (None, w'\<lparr>wbuf := []\<rparr>)))"

text \<open>
  \<open>bufio.Writer.Write\<close>: bytes that fit are buffered. Bytes that do not fit go straight
  to the connection when the buffer is empty; otherwise the buffer is filled and
  flushed, and the rest is buffered or, if larger than a whole buffer, written directly.
\<close>

definition Write :: "byte list \<Rightarrow> bufio_Writer \<Rightarrow> error option \<times> bufio_Writer" where
  "Write p w =
     (case werr w of
        Some e \<Rightarrow> (Some e, w)
      | None \<Rightarrow>
          if length p \<le> defaultBufSize - length (wbuf w) then (None, w\<lparr>wbuf := wbuf w @ p\<rparr>)
          else if wbuf w = [] then
            (case conn_Write p w of
               (Some e, w') \<Rightarrow> (Some e, w'\<lparr>werr := Some e\<rparr>)
             | (None, w') \<Rightarrow> (None, w'))
          else
            (let a = defaultBufSize - length (wbuf w) in
             case Flush (w\<lparr>wbuf := wbuf w @ take a p\<rparr>) of
               (Some e, w') \<Rightarrow> (Some e, w')
             | (None, w') \<Rightarrow>
                 if length (drop a p) \<le> defaultBufSize then (None, w'\<lparr>wbuf := drop a p\<rparr>)
                 else (case conn_Write (drop a p) w' of
                         (Some e, w'') \<Rightarrow> (Some e, w''\<lparr>werr := Some e\<rparr>)
                       | (None, w'') \<Rightarrow> (None, w''))))"

text \<open>
  \<open>bufio.Reader.Discard\<close>: skips \<open>n\<close> bytes and returns how many it skipped, with an
  error when they are fewer than \<open>n\<close>. The reader fetches from the connection what
  the call needs and no more.
\<close>

definition Discard :: "nat \<Rightarrow> bufio_Reader \<Rightarrow> (nat \<times> error option) \<times> bufio_Reader" where
  "Discard n r =
     (if n \<le> length (rbuf r) then ((n, None), r\<lparr>rbuf := drop n (rbuf r)\<rparr>)
      else if rd_closed r then ((length (rbuf r), Some ErrClosed), r\<lparr>rbuf := []\<rparr>)
      else if n - length (rbuf r) \<le> length (incoming r) then
        ((n, None), r\<lparr>rbuf := [], incoming := drop (n - length (rbuf r)) (incoming r)\<rparr>)
      else
        ((length (rbuf r) + length (incoming r), Some (rd_fail r)),
         r\<lparr>rbuf := [], incoming := []\<rparr>))"

text \<open>The bytes of the read stream that the handler has not consumed yet.\<close>

definition unread :: "bufio_Reader \<Rightarrow> byte list" where
  "unread r = rbuf r @ incoming r"

subsection \<open>The collaborators outside the handler's file\<close>

text \<open>
  The codec (package \<open>binprot\<close>) and the single-key read \<open>getLocal\<close> are not in the
  handler's file; they are parameters of the model, and every theorem holds for all of
  them:
  \<^item> \<open>encodeSet\<close>, \<open>encodeKey\<close> and \<open>encodeKeyExp\<close> are the bytes of a command
    header, by opcode;
  \<^item> \<open>ReadResponseHeader\<close> reads a header from the buffered reader, or fails;
  \<^item> \<open>DecodeError\<close> classifies a header's status;
  \<^item> \<open>getLocal\<close> flushes, reads one get response and returns data, flags, expiration
    time and error.
  \<open>binprot.PutResponseHeader\<close> hands a copy of the header value to the codec's pool;
  the pool and the counters of package \<open>metrics\<close> are global to their packages, the
  handler never reads them, and they are left out of the state.
\<close>

datatype Opcode =
    OpcodeSet | OpcodeAdd | OpcodeReplace | OpcodeAppend | OpcodePrepend
  | OpcodeGet | OpcodeGetE | OpcodeGat | OpcodeDelete | OpcodeTouch

type_synonym getLocal_result = "byte list option \<times> uint32 \<times> uint32 \<times> error option"

record Env =
  encodeSet :: "Opcode \<Rightarrow> byte list \<Rightarrow> uint32 \<Rightarrow> uint32 \<Rightarrow> uint32 \<Rightarrow> uint32 \<Rightarrow> byte list"
  encodeKey :: "Opcode \<Rightarrow> byte list \<Rightarrow> uint32 \<Rightarrow> byte list"
  encodeKeyExp :: "Opcode \<Rightarrow> byte list \<Rightarrow> uint32 \<Rightarrow> uint32 \<Rightarrow> byte list"
  ReadResponseHeader :: "bufio_Reader \<Rightarrow> (error + ResponseHeader) \<times> bufio_Reader"
  DecodeError :: "ResponseHeader \<Rightarrow> error option"
  getLocal :: "ReadWriter \<Rightarrow> bool \<Rightarrow> getLocal_result \<times> ReadWriter"

text \<open>
  Modelled from the spec: the \<open>binprot.Write...Cmd\<close> functions are not in the handler's
  file. Each encodes its command (key, flags, expiration, payload length and opaque, as
  the command has them) and writes the bytes to the buffered writer, returning the
  writer's error.
\<close>

definition WriteSetCmd ::
  "Env \<Rightarrow> bufio_Writer \<Rightarrow> byte list \<Rightarrow> uint32 \<Rightarrow> uint32 \<Rightarrow> uint32 \<Rightarrow> uint32 \<Rightarrow> error option \<times> bufio_Writer" where
  "WriteSetCmd env w key flags exptime dataSize opaque =
     Write (encodeSet env OpcodeSet key flags exptime dataSize opaque) w"

definition WriteAddCmd ::
  "Env \<Rightarrow> bufio_Writer \<Rightarrow> byte list \<Rightarrow> uint32 \<Rightarrow> uint32 \<Rightarrow> uint32 \<Rightarrow> uint32 \<Rightarrow> error option \<times> bufio_Writer" where
  "WriteAddCmd env w key flags exptime dataSize opaque =
     Write (encodeSet env OpcodeAdd key flags exptime dataSize opaque) w"

definition WriteReplaceCmd ::
  "Env \<Rightarrow> bufio_Writer \<Rightarrow> byte list \<Rightarrow> uint32 \<Rightarrow> uint32 \<Rightarrow> uint32 \<Rightarrow> uint32 \<Rightarrow> error option \<times> bufio_Writer" where
  "WriteReplaceCmd env w key flags exptime dataSize opaque =
     Write (encodeSet env OpcodeReplace key flags exptime dataSize opaque) w"

definition WriteAppendCmd ::
  "Env \<Rightarrow> bufio_Writer \<Rightarrow> byte list \<Rightarrow> uint32 \<Rightarrow> uint32 \<Rightarrow> uint32 \<Rightarrow> uint32 \<Rightarrow> error option \<times> bufio_Writer" where
  "WriteAppendCmd env w key flags exptime dataSize opaque =
     Write (encodeSet env OpcodeAppend key flags exptime dataSize opaque) w"

definition WritePrependCmd ::
  "Env \<Rightarrow> bufio_Writer \<Rightarrow> byte list \<Rightarrow> uint32 \<Rightarrow> uint32 \<Rightarrow> uint32 \<Rightarrow> uint32 \<Rightarrow> error option \<times> bufio_Writer" where
  "WritePrependCmd env w key flags exptime dataSize opaque =
     Write (encodeSet env OpcodePrepend key flags exptime dataSize opaque) w"

definition WriteGetCmd :: "Env \<Rightarrow> bufio_Writer \<Rightarrow> byte list \<Rightarrow> uint32 \<Rightarrow> error option \<times> bufio_Writer" where
  "WriteGetCmd env w key opaque = Write (encodeKey env OpcodeGet key opaque) w"

definition WriteGetECmd :: "Env \<Rightarrow> bufio_Writer \<Rightarrow> byte list \<Rightarrow> uint32 \<Rightarrow> error option \<times> bufio_Writer" where
  "WriteGetECmd env w key opaque = Write (encodeKey env OpcodeGetE key opaque) w"

definition WriteGATCmd ::
  "Env \<Rightarrow> bufio_Writer \<Rightarrow> byte list \<Rightarrow> uint32 \<Rightarrow> uint32 \<Rightarrow> error option \<times> bufio_Writer" where
  "WriteGATCmd env w key exptime opaque = Write (encodeKeyExp env OpcodeGat key exptime opaque) w"

subsection \<open>Reading and classifying a response header\<close>

text \<open>
  \<open>readResponseHeader\<close>: a failed read returns the zero header with the error; a header
  whose status is classified as an error is returned with that error; both branches
  that obtained a header release it before returning its value.
\<close>

definition readResponseHeader ::
  "Env \<Rightarrow> bufio_Reader \<Rightarrow> (ResponseHeader \<times> error option) \<times> bufio_Reader" where
  "readResponseHeader env r =
     (case ReadResponseHeader env r of
        (Inl err, r') \<Rightarrow> ((zeroResponseHeader, Some err), r')
      | (Inr resHeader, r') \<Rightarrow>
          (case DecodeError env resHeader of
             Some err \<Rightarrow> ((resHeader, Some err), r')
           | None \<Rightarrow> ((resHeader, None), r')))"

subsection \<open>The handler: close and the mutation commands\<close>

definition setWriter :: "Handler \<Rightarrow> bufio_Writer \<Rightarrow> Handler" where
  "setWriter h w = h\<lparr>rw := (rw h)\<lparr>Writer := w\<rparr>\<rparr>"

definition setReader :: "Handler \<Rightarrow> bufio_Reader \<Rightarrow> Handler" where
  "setReader h r = h\<lparr>rw := (rw h)\<lparr>Reader := r\<rparr>\<rparr>"

text \<open>\<open>Close\<close> calls the connection's \<open>Close\<close> and nothing else.\<close>

definition Close :: "Handler \<Rightarrow> error option \<times> Handler" where
  "Close h =
     (close_result h,
      h\<lparr>rw := (rw h)\<lparr>Reader := (Reader (rw h))\<lparr>rd_closed := True\<rparr>,
                     Writer := (Writer (rw h))\<lparr>wr_closed := True\<rparr>\<rparr>\<rparr>)"

text \<open>
  \<open>handleSetCommon\<close>: the payload is written (the result of that write is dropped, as in
  the source), the writer is flushed, and one response header is read. On any error of
  \<open>readResponseHeader\<close> the declared body is discarded; \<open>int(TotalBodyLength)\<close> is
  \<open>unat\<close>, Go's \<open>int\<close> having 64 bits on the platforms the server runs on.
\<close>

definition handleSetCommon :: "Env \<Rightarrow> SetRequest \<Rightarrow> Handler \<Rightarrow> error option \<times> Handler" where
  "handleSetCommon env cmd h =
     (let w1 = snd (Write (Data cmd) (Writer (rw h))) in
      case Flush w1 of
        (Some err, w2) \<Rightarrow> (Some err, setWriter h w2)
      | (None, w2) \<Rightarrow>
          (case readResponseHeader env (Reader (rw h)) of
             ((resHeader, Some err), r1) \<Rightarrow>
               (case Discard (unat (TotalBodyLength resHeader)) r1 of
                  ((n, Some ioerr), r2) \<Rightarrow> (Some ioerr, setReader (setWriter h w2) r2)
                | ((n, None), r2) \<Rightarrow> (Some err, setReader (setWriter h w2) r2))
           | ((resHeader, None), r1) \<Rightarrow> (None, setReader (setWriter h w2) r1)))"

definition Set :: "Env \<Rightarrow> SetRequest \<Rightarrow> Handler \<Rightarrow> error option \<times> Handler" where
  "Set env cmd h =
     (case WriteSetCmd env (Writer (rw h)) (Key cmd) (Flags cmd) (Exptime cmd)
             (of_nat (length (Data cmd))) 0 of
        (Some err, w) \<Rightarrow> (Some err, setWriter h w)
      | (None, w) \<Rightarrow> handleSetCommon env cmd (setWriter h w))"

definition Add :: "Env \<Rightarrow> SetRequest \<Rightarrow> Handler \<Rightarrow> error option \<times> Handler" where
  "Add env cmd h =
     (case WriteAddCmd env (Writer (rw h)) (Key cmd) (Flags cmd) (Exptime cmd)
             (of_nat (length (Data cmd))) 0 of
        (Some err, w) \<Rightarrow> (Some err, setWriter h w)
      | (None, w) \<Rightarrow> handleSetCommon env cmd (setWriter h w))"

definition Replace :: "Env \<Rightarrow> SetRequest \<Rightarrow> Handler \<Rightarrow> error option \<times> Handler" where
  "Replace env cmd h =
     (case WriteReplaceCmd env (Writer (rw h)) (Key cmd) (Flags cmd) (Exptime cmd)
             (of_nat (length (Data cmd))) 0 of
        (Some err, w) \<Rightarrow> (Some err, setWriter h w)
      | (None, w) \<Rightarrow> handleSetCommon env cmd (setWriter h w))"

definition Append :: "Env \<Rightarrow> SetRequest \<Rightarrow> Handler \<Rightarrow> error option \<times> Handler" where
  "Append env cmd h =
     (case WriteAppendCmd env (Writer (rw h)) (Key cmd) (Flags cmd) (Exptime cmd)
             (of_nat (length (Data cmd))) 0 of
        (Some err, w) \<Rightarrow> (Some err, setWriter h w)
      | (None, w) \<Rightarrow> handleSetCommon env cmd (setWriter h w))"

definition Prepend :: "Env \<Rightarrow> SetRequest \<Rightarrow> Handler \<Rightarrow> error option \<times> Handler" where
  "Prepend env cmd h =
     (case WritePrependCmd env (Writer (rw h)) (Key cmd) (Flags cmd) (Exptime cmd)
             (of_nat (length (Data cmd))) 0 of
        (Some err, w) \<Rightarrow> (Some err, setWriter h w)
      | (None, w) \<Rightarrow> handleSetCommon env cmd (setWriter h w))"

subsection \<open>The single-key get-and-touch\<close>

definition GAT :: "Env \<Rightarrow> GATRequest \<Rightarrow> Handler \<Rightarrow> (GetResponse \<times> error option) \<times> Handler" where
  "GAT env cmd h =
     (case WriteGATCmd env (Writer (rw h)) (gat_Key cmd) (gat_Exptime cmd) 0 of
        (Some err, w) \<Rightarrow> ((zeroGetResponse, Some err), setWriter h w)
      | (None, w) \<Rightarrow>
          (case getLocal env ((rw h)\<lparr>Writer := w\<rparr>) False of
             ((data, flags, exp, Some err), rw') \<Rightarrow>
               if err = ErrKeyNotFound then
                 ((\<lparr>res_Miss = True, res_Quiet = False, res_Opaque = gat_Opaque cmd,
                    res_Flags = flags, res_Key = gat_Key cmd, res_Data = None\<rparr>, None),
                  h\<lparr>rw := rw'\<rparr>)
               else ((zeroGetResponse, Some err), h\<lparr>rw := rw'\<rparr>)
           | ((data, flags, exp, None), rw') \<Rightarrow>
               ((\<lparr>res_Miss = False, res_Quiet = False, res_Opaque = gat_Opaque cmd,
                  res_Flags = flags, res_Key = gat_Key cmd, res_Data = data\<rparr>, None),
                h\<lparr>rw := rw'\<rparr>)))"

subsection \<open>The batched get pipelines\<close>

text \<open>
  What the background task does is recorded as a run:
  \<^item> the events it puts on its two channels, in program order (a send on the data
    channel, a send on the error channel, the two deferred closes);
  \<^item> the values that its calls of \<open>getLocal\<close> returned, in call order;
  \<^item> how it ended: by returning, or by the run-time panic of an index out of range
    (\<open>Panicked i n\<close>: index \<open>i\<close> with length \<open>n\<close>);
  \<^item> the streams as it left them.
  The channels are unbuffered; the run is the one in which the caller receives every
  event, as the comment on \<open>Get\<close> expects.
\<close>

datatype 'r chan_event = DataOut 'r | ErrorOut error | CloseData | CloseError

datatype outcome = Returned | Panicked nat nat

type_synonym 'r run = "'r chan_event list \<times> getLocal_result list \<times> outcome \<times> ReadWriter"

text \<open>The components of a single-key read's result and of a run, by name.\<close>

abbreviation result_flags :: "getLocal_result \<Rightarrow> uint32" where
  "result_flags r \<equiv> fst (snd r)"

abbreviation result_exp :: "getLocal_result \<Rightarrow> uint32" where
  "result_exp r \<equiv> fst (snd (snd r))"

abbreviation result_err :: "getLocal_result \<Rightarrow> error option" where
  "result_err r \<equiv> snd (snd (snd r))"

abbreviation run_events :: "'r run \<Rightarrow> 'r chan_event list" where
  "run_events r \<equiv> fst r"

abbreviation run_reads :: "'r run \<Rightarrow> getLocal_result list" where
  "run_reads r \<equiv> fst (snd r)"

abbreviation run_outcome :: "'r run \<Rightarrow> outcome" where
  "run_outcome r \<equiv> fst (snd (snd r))"

text \<open>Go's slice indexing: in range the element, out of range the panic.\<close>

definition index :: "'a list \<Rightarrow> nat \<Rightarrow> (nat \<times> nat) + 'a" where
  "index xs i = (if i < length xs then Inr (xs ! i) else Inl (i, length xs))"

definition emit :: "'r chan_event \<Rightarrow> getLocal_result \<Rightarrow> 'r run \<Rightarrow> 'r run" where
  "emit e res r = (case r of (evs, rds, out, rw') \<Rightarrow> (e # evs, res # rds, out, rw'))"

text \<open>
  The body of \<open>for idx, key := range cmd.Keys\<close> in \<open>realHandleGet\<close>. The fields of
  the response literal are evaluated in the order written: \<open>cmd.Quiet[idx]\<close> before
  \<open>cmd.Opaques[idx]\<close>.
\<close>

fun realHandleGet_loop ::
  "Env \<Rightarrow> GetRequest \<Rightarrow> nat \<Rightarrow> byte list list \<Rightarrow> ReadWriter \<Rightarrow> GetResponse run" where
  "realHandleGet_loop env cmd idx [] rw0 = ([], [], Returned, rw0)"
| "realHandleGet_loop env cmd idx (key # keys) rw0 =
     (case WriteGetCmd env (Writer rw0) key 0 of
        (Some err, w) \<Rightarrow> ([ErrorOut err], [], Returned, rw0\<lparr>Writer := w\<rparr>)
      | (None, w) \<Rightarrow>
          (case getLocal env (rw0\<lparr>Writer := w\<rparr>) False of
             ((data, flags, exp, Some err), rw') \<Rightarrow>
               if err = ErrKeyNotFound then
                 (case index (Quiet cmd) idx of
                    Inl (i, n) \<Rightarrow> ([], [(data, flags, exp, Some err)], Panicked i n, rw')
                  | Inr q \<Rightarrow>
                      (case index (Opaques cmd) idx of
                         Inl (i, n) \<Rightarrow> ([], [(data, flags, exp, Some err)], Panicked i n, rw')
                       | Inr opq \<Rightarrow>
                           emit (DataOut \<lparr>res_Miss = True, res_Quiet = q, res_Opaque = opq,
                                           res_Flags = flags, res_Key = key, res_Data = None\<rparr>)
                             (data, flags, exp, Some err)
                             (realHandleGet_loop env cmd (Suc idx) keys rw')))
               else ([ErrorOut err], [(data, flags, exp, Some err)], Returned, rw')
           | ((data, flags, exp, None), rw') \<Rightarrow>
               (case index (Quiet cmd) idx of
                  Inl (i, n) \<Rightarrow> ([], [(data, flags, exp, None)], Panicked i n, rw')
                | Inr q \<Rightarrow>
                    (case index (Opaques cmd) idx of
                       Inl (i, n) \<Rightarrow> ([], [(data, flags, exp, None)], Panicked i n, rw')
                     | Inr opq \<Rightarrow>
                         emit (DataOut \<lparr>res_Miss = False, res_Quiet = q, res_Opaque = opq,
                                         res_Flags = flags, res_Key = key, res_Data = data\<rparr>)
                           (data, flags, exp, None)
                           (realHandleGet_loop env cmd (Suc idx) keys rw')))))"

text \<open>
  The deferred closes run when the function returns and also when it panics, last
  deferred first: the data channel, then the error channel.
\<close>

definition realHandleGet :: "Env \<Rightarrow> GetRequest \<Rightarrow> ReadWriter \<Rightarrow> GetResponse run" where
  "realHandleGet env cmd rw0 =
     (case realHandleGet_loop env cmd 0 (Keys cmd) rw0 of
        (evs, rds, out, rw') \<Rightarrow> (evs @ [CloseData, CloseError], rds, out, rw'))"

definition Get :: "Env \<Rightarrow> GetRequest \<Rightarrow> Handler \<Rightarrow> GetResponse run" where
  "Get env cmd h = realHandleGet env cmd (rw h)"

fun realHandleGetE_loop ::
  "Env \<Rightarrow> GetRequest \<Rightarrow> nat \<Rightarrow> byte list list \<Rightarrow> ReadWriter \<Rightarrow> GetEResponse run" where
  "realHandleGetE_loop env cmd idx [] rw0 = ([], [], Returned, rw0)"
| "realHandleGetE_loop env cmd idx (key # keys) rw0 =
     (case WriteGetECmd env (Writer rw0) key 0 of
        (Some err, w) \<Rightarrow> ([ErrorOut err], [], Returned, rw0\<lparr>Writer := w\<rparr>)
      | (None, w) \<Rightarrow>
          (case getLocal env (rw0\<lparr>Writer := w\<rparr>) True of
             ((data, flags, exp, Some err), rw') \<Rightarrow>
               if err = ErrKeyNotFound then
                 (case index (Quiet cmd) idx of
                    Inl (i, n) \<Rightarrow> ([], [(data, flags, exp, Some err)], Panicked i n, rw')
                  | Inr q \<Rightarrow>
                      (case index (Opaques cmd) idx of
                         Inl (i, n) \<Rightarrow> ([], [(data, flags, exp, Some err)], Panicked i n, rw')
                       | Inr opq \<Rightarrow>
                           emit (DataOut \<lparr>rese_Miss = True, rese_Quiet = q, rese_Opaque = opq,
                                           rese_Flags = flags, rese_Exptime = exp,
                                           rese_Key = key, rese_Data = None\<rparr>)
                             (data, flags, exp, Some err)
                             (realHandleGetE_loop env cmd (Suc idx) keys rw')))
               else ([ErrorOut err], [(data, flags, exp, Some err)], Returned, rw')
           | ((data, flags, exp, None), rw') \<Rightarrow>
               (case index (Quiet cmd) idx of
                  Inl (i, n) \<Rightarrow> ([], [(data, flags, exp, None)], Panicked i n, rw')
                | Inr q \<Rightarrow>
                    (case index (Opaques cmd) idx of
                       Inl (i, n) \<Rightarrow> ([], [(data, flags, exp, None)], Panicked i n, rw')
                     | Inr opq \<Rightarrow>
                         emit (DataOut \<lparr>rese_Miss = False, rese_Quiet = q, rese_Opaque = opq,
                                         rese_Flags = flags, rese_Exptime = exp,
                                         rese_Key = key, rese_Data = data\<rparr>)
                           (data, flags, exp, None)
                           (realHandleGetE_loop env cmd (Suc idx) keys rw')))))"

definition realHandleGetE :: "Env \<Rightarrow> GetRequest \<Rightarrow> ReadWriter \<Rightarrow> GetEResponse run" where
  "realHandleGetE env cmd rw0 =
     (case realHandleGetE_loop env cmd 0 (Keys cmd) rw0 of
        (evs, rds, out, rw') \<Rightarrow> (evs @ [CloseData, CloseError], rds, out, rw'))"

definition GetE :: "Env \<Rightarrow> GetRequest \<Rightarrow> Handler \<Rightarrow> GetEResponse run" where
  "GetE env cmd h = realHandleGetE env cmd (rw h)"

subsection \<open>Conditions on the streams and on a read's result\<close>

text \<open>
  A buffered writer to which a command can be written: it has no sticky error, and its
  connection is open and refuses no write.
\<close>

definition writable :: "bufio_Writer \<Rightarrow> bool" where
  "writable w = (werr w = None \<and> wr_fail w = None \<and> \<not> wr_closed w)"

text \<open>A single-key read that found its key or missed it: no error but key-not-found.\<close>

definition hit_or_miss :: "getLocal_result \<Rightarrow> bool" where
  "hit_or_miss r = (result_err r = None \<or> result_err r = Some ErrKeyNotFound)"

subsection \<open>The mutation commands, by opcode\<close>

text \<open>The five mutation commands with the opcode each one encodes.\<close>

definition mutationCommands ::
  "(Opcode \<times> (Env \<Rightarrow> SetRequest \<Rightarrow> Handler \<Rightarrow> error option \<times> Handler)) list" where
  "mutationCommands =
     [(OpcodeSet, Set), (OpcodeAdd, Add), (OpcodeReplace, Replace),
      (OpcodeAppend, Append), (OpcodePrepend, Prepend)]"

text \<open>The bytes of the command header that a mutation command writes for a request.\<close>

definition commandHeader :: "Env \<Rightarrow> Opcode \<Rightarrow> SetRequest \<Rightarrow> byte list" where
  "commandHeader env opc cmd =
     encodeSet env opc (Key cmd) (Flags cmd) (Exptime cmd) (of_nat (length (Data cmd))) 0"

text \<open>Writes and flushes on the buffered writer, for what can happen after \<open>Close\<close>.\<close>

datatype writer_op = DoWrite "byte list" | DoFlush

fun run_ops :: "writer_op list \<Rightarrow> bufio_Writer \<Rightarrow> bufio_Writer" where
  "run_ops [] w = w"
| "run_ops (DoWrite p # ops) w = run_ops ops (snd (Write p w))"
| "run_ops (DoFlush # ops) w = run_ops ops (snd (Flush w))"

subsection \<open>A small codec and server, to run the handler on concrete inputs\<close>

text \<open>
  A two-byte response header (status, body length), a three-byte command header
  followed by the key, and a single-key read that flushes, reads a header, discards the
  body of an error response and returns the body of a successful one.
\<close>

definition sample_opcode :: "Opcode \<Rightarrow> byte" where
  "sample_opcode opc =
     (case opc of
        OpcodeSet \<Rightarrow> 1 | OpcodeAdd \<Rightarrow> 2 | OpcodeReplace \<Rightarrow> 3 | OpcodeAppend \<Rightarrow> 14
      | OpcodePrepend \<Rightarrow> 15 | OpcodeGet \<Rightarrow> 0 | OpcodeGetE \<Rightarrow> 64 | OpcodeGat \<Rightarrow> 29
      | OpcodeDelete \<Rightarrow> 4 | OpcodeTouch \<Rightarrow> 28)"

definition sample_ReadResponseHeader ::
  "bufio_Reader \<Rightarrow> (error + ResponseHeader) \<times> bufio_Reader" where
  "sample_ReadResponseHeader r =
     (if rd_closed r then (Inl ErrClosed, r)
      else (case unread r of
              s # n # rest \<Rightarrow>
                (Inr (zeroResponseHeader\<lparr>Status := ucast s, TotalBodyLength := ucast n\<rparr>),
                 r\<lparr>rbuf := [], incoming := rest\<rparr>)
            | _ \<Rightarrow> (Inl (rd_fail r), r\<lparr>rbuf := [], incoming := []\<rparr>)))"

definition sample_DecodeError :: "ResponseHeader \<Rightarrow> error option" where
  "sample_DecodeError hdr =
     (if Status hdr = 0 then None
      else if Status hdr = 1 then Some ErrKeyNotFound
      else if Status hdr = 2 then Some ErrKeyExists
      else Some (ErrStatus (Status hdr)))"

definition sample_getLocal :: "ReadWriter \<Rightarrow> bool \<Rightarrow> getLocal_result \<times> ReadWriter" where
  "sample_getLocal rw0 readExp =
     (case Flush (Writer rw0) of
        (Some e, w) \<Rightarrow> ((None, 0, 0, Some e), rw0\<lparr>Writer := w\<rparr>)
      | (None, w) \<Rightarrow>
          (case sample_ReadResponseHeader (Reader rw0) of
             (Inl e, r) \<Rightarrow> ((None, 0, 0, Some e), \<lparr>Reader = r, Writer = w\<rparr>)
           | (Inr hdr, r) \<Rightarrow>
               (case sample_DecodeError hdr of
                  Some e \<Rightarrow>
                    (case Discard (unat (TotalBodyLength hdr)) r of
                       ((n, Some ioerr), r') \<Rightarrow> ((None, 0, 0, Some ioerr), \<lparr>Reader = r', Writer = w\<rparr>)
                     | ((n, None), r') \<Rightarrow> ((None, 0, 0, Some e), \<lparr>Reader = r', Writer = w\<rparr>))
                | None \<Rightarrow>
                    (case Discard (unat (TotalBodyLength hdr)) r of
                       ((n, Some ioerr), r') \<Rightarrow> ((None, 0, 0, Some ioerr), \<lparr>Reader = r', Writer = w\<rparr>)
                     | ((n, None), r') \<Rightarrow>
                         ((Some (take n (unread r)), 7, if readExp then 9 else 0, None),
                          \<lparr>Reader = r', Writer = w\<rparr>)))))"

definition sampleEnv :: Env where
  "sampleEnv =
     \<lparr>encodeSet = (\<lambda>opc key flags exptime dataSize opaque.
                     [sample_opcode opc, of_nat (length key), ucast dataSize] @ key),
      encodeKey = (\<lambda>opc key opaque. [sample_opcode opc, of_nat (length key), 0] @ key),
      encodeKeyExp = (\<lambda>opc key exptime opaque. [sample_opcode opc, of_nat (length key), 0] @ key),
      ReadResponseHeader = sample_ReadResponseHeader,
      DecodeError = sample_DecodeError,
      getLocal = sample_getLocal\<rparr>"

text \<open>A fresh handler on a connection that will deliver the given bytes.\<close>

definition sampleHandler :: "byte list \<Rightarrow> Handler" where
  "sampleHandler bs =
     \<lparr>rw = \<lparr>Reader = \<lparr>rbuf = [], incoming = bs, rd_fail = ErrEOF, rd_closed = False\<rparr>,
            Writer = \<lparr>wbuf = [], werr = None, sent = [], wr_fail = None, wr_closed = False\<rparr>\<rparr>,
      close_result = None\<rparr>"

definition sampleSet :: SetRequest where
  "sampleSet = \<lparr>Key = [107, 49], Flags = 0, Exptime = 0, Data = [118, 49]\<rparr>"

definition sampleGet2 :: GetRequest where
  "sampleGet2 = \<lparr>Keys = [[107, 49], [107, 50]], Opaques = [5, 6], Quiet = [True, False]\<rparr>"

definition sampleGet3 :: GetRequest where
  "sampleGet3 =
     \<lparr>Keys = [[107, 49], [107, 50], [107, 51]], Opaques = [5, 6, 7],
      Quiet = [True, False, True]\<rparr>"

definition sampleGetShort :: GetRequest where
  "sampleGetShort = \<lparr>Keys = [[107, 49], [107, 50]], Opaques = [5], Quiet = [True, False]\<rparr>"

definition sampleGAT :: GATRequest where
  "sampleGAT = \<lparr>gat_Key = [107, 49], gat_Exptime = 60, gat_Opaque = 9\<rparr>"

section \<open>Properties\<close>

subsection \<open>The buffered streams\<close>

lemma Write_ok:
  "Write p w = (None, w') \<Longrightarrow>
     sent w' @ wbuf w' = sent w @ wbuf w @ p \<and> werr w' = None \<and> werr w = None
     \<and> wr_fail w' = wr_fail w \<and> wr_closed w' = wr_closed w"
  by (auto simp: Write_def Flush_def conn_Write_def Let_def split: option.splits if_splits prod.splits)

lemma Write_err:
  "Write p w = (Some e, w') \<Longrightarrow> werr w' \<noteq> None"
  by (auto simp: Write_def Flush_def conn_Write_def Let_def split: option.splits if_splits prod.splits)

lemma Flush_ok:
  "Flush w = (None, w') \<Longrightarrow> sent w' = sent w @ wbuf w \<and> wbuf w' = [] \<and> werr w = None \<and> werr w' = None"
  by (auto simp: Flush_def conn_Write_def split: option.splits if_splits prod.splits)

lemma Write_writable:
  "writable w \<Longrightarrow> fst (Write p w) = None \<and> writable (snd (Write p w))"
  by (auto simp: writable_def Write_def Flush_def conn_Write_def Let_def split: option.splits)

lemma Discard_ok:
  "Discard n r = ((m, None), r') \<Longrightarrow> m = n \<and> n \<le> length (unread r) \<and> unread r' = drop n (unread r)
     \<and> rd_fail r' = rd_fail r \<and> rd_closed r' = rd_closed r"
  by (auto simp: Discard_def unread_def split: if_splits)

subsection \<open>The mutation commands\<close>

lemma mutation_unfold:
  assumes "(opc, f) \<in> set mutationCommands"
  shows "f env cmd h =
     (case Write (commandHeader env opc cmd) (Writer (rw h)) of
        (Some err, w) \<Rightarrow> (Some err, setWriter h w)
      | (None, w) \<Rightarrow> handleSetCommon env cmd (setWriter h w))"
  using assms
  by (auto simp: mutationCommands_def commandHeader_def Set_def Add_def Replace_def
      Append_def Prepend_def WriteSetCmd_def WriteAddCmd_def WriteReplaceCmd_def
      WriteAppendCmd_def WritePrependCmd_def)

lemma rw_setWriter [simp]:
  "Writer (rw (setWriter h w)) = w" "Reader (rw (setWriter h w)) = Reader (rw h)"
  "Writer (rw (setReader h r)) = Writer (rw h)" "Reader (rw (setReader h r)) = r"
  by (simp_all add: setWriter_def setReader_def)

text \<open>
  Claim C1. For each of Set, Add, Replace, Append and Prepend: when the command has been
  written and flushed, a response header has been read and its status is classified as
  an error, and the discard succeeds, the call returns that classified error itself,
  and the discard has removed exactly \<open>TotalBodyLength\<close> bytes from the front of the
  read stream.
\<close>

theorem mutation_error_status_discards_body:
  assumes "(opc, f) \<in> set mutationCommands"
      and "Write (commandHeader env opc cmd) (Writer (rw h)) = (None, w1)"
      and "Flush (snd (Write (Data cmd) w1)) = (None, w2)"
      and "ReadResponseHeader env (Reader (rw h)) = (Inr resHeader, r1)"
      and "DecodeError env resHeader = Some err"
      and "Discard (unat (TotalBodyLength resHeader)) r1 = ((n, None), r2)"
  shows "f env cmd h = (Some err, setReader (setWriter h w2) r2)
         \<and> n = unat (TotalBodyLength resHeader)
         \<and> n \<le> length (unread r1)
         \<and> unread r2 = drop n (unread r1)"
proof -
  have "handleSetCommon env cmd (setWriter h w1) = (Some err, setReader (setWriter h w2) r2)"
    using assms(3-6)
    by (simp add: handleSetCommon_def readResponseHeader_def setWriter_def setReader_def)
  then have "f env cmd h = (Some err, setReader (setWriter h w2) r2)"
    using assms(1,2) by (simp add: mutation_unfold)
  then show ?thesis using Discard_ok [OF assms(6)] by simp
qed

theorem mutation_error_status_discards_body_witness:
  "DecodeError sampleEnv (zeroResponseHeader\<lparr>Status := 2, TotalBodyLength := 1\<rparr>) = Some ErrKeyExists
   \<and> fst (Add sampleEnv sampleSet (sampleHandler [2, 1, 33, 5])) = Some ErrKeyExists
   \<and> unread (Reader (rw (snd (Add sampleEnv sampleSet (sampleHandler [2, 1, 33, 5]))))) = [5]"
proof -
  let ?h = "sampleHandler [2, 1, 33, 5]"
  let ?w1 = "\<lparr>wbuf = [2, 2, 2, 107, 49], werr = None, sent = [], wr_fail = None, wr_closed = False\<rparr>"
  let ?w2 = "\<lparr>wbuf = [], werr = None, sent = [2, 2, 2, 107, 49, 118, 49], wr_fail = None, wr_closed = False\<rparr>"
  let ?hdr = "zeroResponseHeader\<lparr>Status := 2, TotalBodyLength := 1\<rparr>"
  let ?r1 = "\<lparr>rbuf = [], incoming = [33, 5], rd_fail = ErrEOF, rd_closed = False\<rparr>"
  let ?r2 = "\<lparr>rbuf = [], incoming = [5], rd_fail = ErrEOF, rd_closed = False\<rparr>"
  have a: "(OpcodeAdd, Add) \<in> set mutationCommands"
    by (simp add: mutationCommands_def)
  have b: "Write (commandHeader sampleEnv OpcodeAdd sampleSet) (Writer (rw ?h)) = (None, ?w1)"
    by (simp add: commandHeader_def sampleEnv_def sampleSet_def sampleHandler_def Write_def
        defaultBufSize_def sample_opcode_def)
  have c: "Flush (snd (Write (Data sampleSet) ?w1)) = (None, ?w2)"
    by (simp add: sampleSet_def Write_def Flush_def conn_Write_def defaultBufSize_def)
  have d: "ReadResponseHeader sampleEnv (Reader (rw ?h)) = (Inr ?hdr, ?r1)"
    by (simp add: sampleEnv_def sampleHandler_def sample_ReadResponseHeader_def unread_def)
  have e: "DecodeError sampleEnv ?hdr = Some ErrKeyExists"
    by (simp add: sampleEnv_def sample_DecodeError_def)
  have f: "Discard (unat (TotalBodyLength ?hdr)) ?r1 = ((1, None), ?r2)"
    by (simp add: Discard_def)
  show ?thesis
    using mutation_error_status_discards_body [OF a b c d e f] e
    by (simp add: unread_def)
qed


text \<open>
  Claim C6. For each mutation command: when the status is classified as an error and the
  discard of the declared body fails, the call returns the error of the discard, not
  the classified one.
\<close>

theorem mutation_discard_failure_escalates:
  assumes "(opc, f) \<in> set mutationCommands"
      and "Write (commandHeader env opc cmd) (Writer (rw h)) = (None, w1)"
      and "Flush (snd (Write (Data cmd) w1)) = (None, w2)"
      and "ReadResponseHeader env (Reader (rw h)) = (Inr resHeader, r1)"
      and "DecodeError env resHeader = Some err"
      and "Discard (unat (TotalBodyLength resHeader)) r1 = ((n, Some ioerr), r2)"
  shows "f env cmd h = (Some ioerr, setReader (setWriter h w2) r2)"
proof -
  have "handleSetCommon env cmd (setWriter h w1) = (Some ioerr, setReader (setWriter h w2) r2)"
    using assms(3-6)
    by (simp add: handleSetCommon_def readResponseHeader_def setWriter_def setReader_def)
  then show ?thesis
    using assms(1,2) by (simp add: mutation_unfold)
qed

theorem mutation_discard_failure_escalates_witness:
  "DecodeError sampleEnv (zeroResponseHeader\<lparr>Status := 2, TotalBodyLength := 3\<rparr>) = Some ErrKeyExists
   \<and> fst (Replace sampleEnv sampleSet (sampleHandler [2, 3, 33, 5])) = Some ErrEOF"
proof -
  let ?h = "sampleHandler [2, 3, 33, 5]"
  let ?w1 = "\<lparr>wbuf = [3, 2, 2, 107, 49], werr = None, sent = [], wr_fail = None, wr_closed = False\<rparr>"
  let ?w2 = "\<lparr>wbuf = [], werr = None, sent = [3, 2, 2, 107, 49, 118, 49], wr_fail = None, wr_closed = False\<rparr>"
  let ?hdr = "zeroResponseHeader\<lparr>Status := 2, TotalBodyLength := 3\<rparr>"
  let ?r1 = "\<lparr>rbuf = [], incoming = [33, 5], rd_fail = ErrEOF, rd_closed = False\<rparr>"
  let ?r2 = "\<lparr>rbuf = [], incoming = [], rd_fail = ErrEOF, rd_closed = False\<rparr>"
  have a: "(OpcodeReplace, Replace) \<in> set mutationCommands"
    by (simp add: mutationCommands_def)
  have b: "Write (commandHeader sampleEnv OpcodeReplace sampleSet) (Writer (rw ?h)) = (None, ?w1)"
    by (simp add: commandHeader_def sampleEnv_def sampleSet_def sampleHandler_def Write_def
        defaultBufSize_def sample_opcode_def)
  have c: "Flush (snd (Write (Data sampleSet) ?w1)) = (None, ?w2)"
    by (simp add: sampleSet_def Write_def Flush_def conn_Write_def defaultBufSize_def)
  have d: "ReadResponseHeader sampleEnv (Reader (rw ?h)) = (Inr ?hdr, ?r1)"
    by (simp add: sampleEnv_def sampleHandler_def sample_ReadResponseHeader_def unread_def)
  have e: "DecodeError sampleEnv ?hdr = Some ErrKeyExists"
    by (simp add: sampleEnv_def sample_DecodeError_def)
  have f: "Discard (unat (TotalBodyLength ?hdr)) ?r1 = ((2, Some ErrEOF), ?r2)"
    by (simp add: Discard_def)
  show ?thesis
    using mutation_discard_failure_escalates [OF a b c d e f] e
    by simp
qed

lemma Flush_after_Write_ok:
  assumes "Flush (snd (Write p w)) = (None, w')"
  shows "sent w' = sent w @ wbuf w @ p \<and> wbuf w' = [] \<and> werr w' = None"
proof (cases "Write p w")
  case (Pair res w1)
  have "werr w1 = None" using Flush_ok [of w1 w'] assms Pair by simp
  then have "res = None" using Write_err [of p w _ w1] Pair by (cases res) auto
  then have "sent w1 @ wbuf w1 = sent w @ wbuf w @ p" using Write_ok [of p w w1] Pair by simp
  then show ?thesis using Flush_ok [of w1 w'] assms Pair by simp
qed

text \<open>
  Claim C5. For each mutation command whose response status is classified as success:
  the call returns no error, and what the connection has received by then is what it
  had received before, then what was pending in the write buffer before the call
  (nothing, for a handler whose earlier commands completed), then exactly the encoded
  command header followed by the payload; nothing is left in the write buffer.
\<close>

theorem mutation_success_writes_header_then_payload:
  assumes "(opc, f) \<in> set mutationCommands"
      and "Write (commandHeader env opc cmd) (Writer (rw h)) = (None, w1)"
      and "Flush (snd (Write (Data cmd) w1)) = (None, w2)"
      and "ReadResponseHeader env (Reader (rw h)) = (Inr resHeader, r1)"
      and "DecodeError env resHeader = None"
  shows "f env cmd h = (None, setReader (setWriter h w2) r1)
         \<and> sent w2 = sent (Writer (rw h)) @ wbuf (Writer (rw h)) @ commandHeader env opc cmd @ Data cmd
         \<and> wbuf w2 = []"
proof -
  have "handleSetCommon env cmd (setWriter h w1) = (None, setReader (setWriter h w2) r1)"
    using assms(3-5)
    by (simp add: handleSetCommon_def readResponseHeader_def setWriter_def setReader_def)
  then have res: "f env cmd h = (None, setReader (setWriter h w2) r1)"
    using assms(1,2) by (simp add: mutation_unfold)
  have "sent w1 @ wbuf w1 = sent (Writer (rw h)) @ wbuf (Writer (rw h)) @ commandHeader env opc cmd"
    using Write_ok [OF assms(2)] by simp
  moreover have "sent w2 = sent w1 @ wbuf w1 @ Data cmd \<and> wbuf w2 = []"
    using Flush_after_Write_ok [OF assms(3)] by simp
  ultimately show ?thesis using res by simp
qed

theorem mutation_success_writes_header_then_payload_witness:
  "DecodeError sampleEnv (zeroResponseHeader\<lparr>Status := 0, TotalBodyLength := 0\<rparr>) = None
   \<and> fst (Set sampleEnv sampleSet (sampleHandler [0, 0, 33, 5])) = None
   \<and> sent (Writer (rw (snd (Set sampleEnv sampleSet (sampleHandler [0, 0, 33, 5])))))
       = commandHeader sampleEnv OpcodeSet sampleSet @ Data sampleSet"
proof -
  let ?h = "sampleHandler [0, 0, 33, 5]"
  let ?w1 = "\<lparr>wbuf = [1, 2, 2, 107, 49], werr = None, sent = [], wr_fail = None, wr_closed = False\<rparr>"
  let ?w2 = "\<lparr>wbuf = [], werr = None, sent = [1, 2, 2, 107, 49, 118, 49], wr_fail = None, wr_closed = False\<rparr>"
  let ?hdr = "zeroResponseHeader\<lparr>Status := 0, TotalBodyLength := 0\<rparr>"
  let ?r1 = "\<lparr>rbuf = [], incoming = [33, 5], rd_fail = ErrEOF, rd_closed = False\<rparr>"
  have a: "(OpcodeSet, Set) \<in> set mutationCommands"
    by (simp add: mutationCommands_def)
  have b: "Write (commandHeader sampleEnv OpcodeSet sampleSet) (Writer (rw ?h)) = (None, ?w1)"
    by (simp add: commandHeader_def sampleEnv_def sampleSet_def sampleHandler_def Write_def
        defaultBufSize_def sample_opcode_def)
  have c: "Flush (snd (Write (Data sampleSet) ?w1)) = (None, ?w2)"
    by (simp add: sampleSet_def Write_def Flush_def conn_Write_def defaultBufSize_def)
  have d: "ReadResponseHeader sampleEnv (Reader (rw ?h)) = (Inr ?hdr, ?r1)"
    by (simp add: sampleEnv_def sampleHandler_def sample_ReadResponseHeader_def unread_def)
  have e: "DecodeError sampleEnv ?hdr = None"
    by (simp add: sampleEnv_def sample_DecodeError_def)
  have g: "sent (Writer (rw ?h)) = [] \<and> wbuf (Writer (rw ?h)) = []"
    by (simp add: sampleHandler_def)
  show ?thesis
    using mutation_success_writes_header_then_payload [OF a b c d e] e g
    by simp
qed

subsection \<open>Get-and-touch\<close>

text \<open>
  Claim C9. Whatever the request and the state, the response that \<open>GAT\<close> returns has
  \<open>Quiet\<close> false: on a hit, on a miss, and in the zero response of the error paths.
\<close>

theorem GAT_Quiet_False: "res_Quiet (fst (fst (GAT env cmd h))) = False"
  by (simp add: GAT_def zeroGetResponse_def split: prod.splits option.splits)

subsection \<open>Close\<close>

lemma Write_closed:
  "wr_closed w \<Longrightarrow> sent (snd (Write p w)) = sent w \<and> wr_closed (snd (Write p w))"
  by (auto simp: Write_def Flush_def conn_Write_def Let_def split: option.splits)

lemma Flush_closed:
  "wr_closed w \<Longrightarrow> sent (snd (Flush w)) = sent w \<and> wr_closed (snd (Flush w))"
  by (auto simp: Flush_def conn_Write_def split: option.splits)

lemma run_ops_closed:
  "wr_closed w \<Longrightarrow> sent (run_ops ops w) = sent w"
proof (induction ops arbitrary: w)
  case Nil
  then show ?case by simp
next
  case (Cons a ops)
  then show ?case
    by (cases a) (simp_all add: Write_closed Flush_closed)
qed

text \<open>
  Claim C10. \<open>Close\<close> returns what the connection's close returns and changes nothing
  but the connection, which is now closed: the write buffer, the writer's sticky error,
  the read buffer and the bytes sent are as before, and whatever is written or flushed
  afterwards, the connection receives nothing more, so the bytes that were buffered at
  the time of \<open>Close\<close> are never sent.
\<close>

theorem Close_does_not_flush:
  "fst (Close h) = close_result h
   \<and> snd (Close h) =
       h\<lparr>rw := \<lparr>Reader = (Reader (rw h))\<lparr>rd_closed := True\<rparr>,
                Writer = (Writer (rw h))\<lparr>wr_closed := True\<rparr>\<rparr>\<rparr>
   \<and> wbuf (Writer (rw (snd (Close h)))) = wbuf (Writer (rw h))
   \<and> werr (Writer (rw (snd (Close h)))) = werr (Writer (rw h))
   \<and> rbuf (Reader (rw (snd (Close h)))) = rbuf (Reader (rw h))
   \<and> sent (Writer (rw (snd (Close h)))) = sent (Writer (rw h))
   \<and> (\<forall>ops. sent (run_ops ops (Writer (rw (snd (Close h))))) = sent (Writer (rw h)))"
  by (simp add: Close_def run_ops_closed)

subsection \<open>The loop of the batched get\<close>

lemma realHandleGet_loop_fails_fast:
  "realHandleGet_loop env cmd idx keys rw0 = (evs, rds, out, rw') \<Longrightarrow>
   i < length rds \<Longrightarrow> result_err (rds ! i) = Some e \<Longrightarrow> e \<noteq> ErrKeyNotFound \<Longrightarrow>
   (\<exists>rs. evs = map DataOut rs @ [ErrorOut e] \<and> length rs = i) \<and> length rds = Suc i
   \<and> out = Returned
   \<and> realHandleGet_loop env cmd idx (take (Suc i) keys) rw0 = (evs, rds, out, rw')"
proof (induction keys arbitrary: idx rw0 evs rds out rw' i)
  case Nil
  then show ?case by simp
next
  case (Cons key keys)
  obtain werr1 w where wr: "WriteGetCmd env (Writer rw0) key 0 = (werr1, w)"
    by (cases "WriteGetCmd env (Writer rw0) key 0")
  obtain data flags exp rerr rw1 where
    rd: "getLocal env (rw0\<lparr>Writer := w\<rparr>) False = ((data, flags, exp, rerr), rw1)"
    by (cases "getLocal env (rw0\<lparr>Writer := w\<rparr>) False") auto
  obtain evs1 rds1 out1 rw2 where
    rest: "realHandleGet_loop env cmd (Suc idx) keys rw1 = (evs1, rds1, out1, rw2)"
    by (cases "realHandleGet_loop env cmd (Suc idx) keys rw1") auto
  show ?case
  proof (cases "werr1 = None \<and> (rerr = None \<or> rerr = Some ErrKeyNotFound)
                 \<and> idx < length (Quiet cmd) \<and> idx < length (Opaques cmd)")
    case True
    then obtain ev where
      run: "evs = DataOut ev # evs1" "rds = (data, flags, exp, rerr) # rds1" "out = out1" "rw' = rw2"
      using Cons.prems(1) wr rd rest by (auto simp: emit_def index_def)
    from run Cons.prems True obtain j where j: "i = Suc j"
      by (cases i) auto
    have "(\<exists>rs. evs1 = map DataOut rs @ [ErrorOut e] \<and> length rs = j) \<and> length rds1 = Suc j
       \<and> out1 = Returned
       \<and> realHandleGet_loop env cmd (Suc idx) (take (Suc j) keys) rw1 = (evs1, rds1, out1, rw2)"
      using Cons.IH [OF rest, of j] Cons.prems run j by simp
    then obtain rs where rs: "evs1 = map DataOut rs @ [ErrorOut e]" "length rs = j"
      and more: "length rds1 = Suc j" "out1 = Returned"
        "realHandleGet_loop env cmd (Suc idx) (take (Suc j) keys) rw1 = (evs1, rds1, out1, rw2)"
      by blast
    have "evs = map DataOut (ev # rs) @ [ErrorOut e] \<and> length (ev # rs) = i"
      using run rs j by simp
    then have "\<exists>rs. evs = map DataOut rs @ [ErrorOut e] \<and> length rs = i" ..
    moreover have "realHandleGet_loop env cmd idx (take (Suc i) (key # keys)) rw0 = (evs, rds, out, rw')"
      using Cons.prems(1) wr rd rest True more(3) j by (auto simp: emit_def index_def)
    ultimately show ?thesis using run more(1,2) j by simp
  next
    case False
    then show ?thesis
      using Cons.prems wr rd
      by (auto simp: index_def split: if_splits option.splits)
  qed
qed


lemma realHandleGet_loop_all_miss:
  "realHandleGet_loop env cmd idx keys rw0 = (evs, rds, out, rw') \<Longrightarrow>
   length rds = length keys \<Longrightarrow>
   \<forall>r \<in> set rds. result_err r = Some ErrKeyNotFound \<Longrightarrow>
   idx + length keys \<le> length (Quiet cmd) \<Longrightarrow>
   idx + length keys \<le> length (Opaques cmd) \<Longrightarrow>
   evs = map (\<lambda>i. DataOut \<lparr>res_Miss = True, res_Quiet = Quiet cmd ! (idx + i),
                            res_Opaque = Opaques cmd ! (idx + i),
                            res_Flags = result_flags (rds ! i), res_Key = keys ! i,
                            res_Data = None\<rparr>) [0..<length keys]
   \<and> out = Returned"
proof (induction keys arbitrary: idx rw0 evs rds out rw')
  case Nil
  then show ?case by simp
next
  case (Cons key keys)
  obtain werr1 w where wr: "WriteGetCmd env (Writer rw0) key 0 = (werr1, w)"
    by (cases "WriteGetCmd env (Writer rw0) key 0")
  obtain data flags exp rerr rw1 where
    rd: "getLocal env (rw0\<lparr>Writer := w\<rparr>) False = ((data, flags, exp, rerr), rw1)"
    by (cases "getLocal env (rw0\<lparr>Writer := w\<rparr>) False") auto
  obtain evs1 rds1 out1 rw2 where
    rest: "realHandleGet_loop env cmd (Suc idx) keys rw1 = (evs1, rds1, out1, rw2)"
    by (cases "realHandleGet_loop env cmd (Suc idx) keys rw1") auto
  have w_ok: "werr1 = None"
    using Cons.prems(1,2) wr by (cases werr1) auto
  have in_range: "idx < length (Quiet cmd)" "idx < length (Opaques cmd)"
    using Cons.prems(4,5) by simp_all
  have miss: "rerr = Some ErrKeyNotFound"
    using Cons.prems(1,2,3) wr rd rest w_ok in_range
    by (cases rerr) (auto simp: emit_def index_def split: if_splits)
  have run: "evs = DataOut \<lparr>res_Miss = True, res_Quiet = Quiet cmd ! idx,
                            res_Opaque = Opaques cmd ! idx, res_Flags = flags,
                            res_Key = key, res_Data = None\<rparr> # evs1"
       "rds = (data, flags, exp, rerr) # rds1" "out = out1"
    using Cons.prems(1) wr rd rest w_ok in_range miss by (simp_all add: emit_def index_def)
  have ih: "evs1 = map (\<lambda>i. DataOut \<lparr>res_Miss = True, res_Quiet = Quiet cmd ! (Suc idx + i),
                            res_Opaque = Opaques cmd ! (Suc idx + i),
                            res_Flags = result_flags (rds1 ! i), res_Key = keys ! i,
                            res_Data = None\<rparr>) [0..<length keys] \<and> out1 = Returned"
    using Cons.IH [OF rest] Cons.prems(2-5) run by simp
  show ?case
    using run ih by (simp add: map_upt_Suc del: upt_Suc)
qed

lemma realHandleGet_loop_miss:
  "realHandleGet_loop env cmd idx keys rw0 = (evs, rds, out, rw') \<Longrightarrow>
   i < length rds \<Longrightarrow> rds ! i = (data, flags, exp, Some ErrKeyNotFound) \<Longrightarrow>
   idx + i < length (Quiet cmd) \<Longrightarrow> idx + i < length (Opaques cmd) \<Longrightarrow>
   i < length evs \<and> i < length keys
   \<and> evs ! i = DataOut \<lparr>res_Miss = True, res_Quiet = Quiet cmd ! (idx + i),
                         res_Opaque = Opaques cmd ! (idx + i), res_Flags = flags,
                         res_Key = keys ! i, res_Data = None\<rparr>
   \<and> (\<exists>rs. take i evs = map DataOut rs)"
proof (induction keys arbitrary: idx rw0 evs rds out rw' i)
  case Nil
  then show ?case by simp
next
  case (Cons key keys)
  obtain werr1 w where wr: "WriteGetCmd env (Writer rw0) key 0 = (werr1, w)"
    by (cases "WriteGetCmd env (Writer rw0) key 0")
  obtain data1 flags1 exp1 rerr rw1 where
    rd: "getLocal env (rw0\<lparr>Writer := w\<rparr>) False = ((data1, flags1, exp1, rerr), rw1)"
    by (cases "getLocal env (rw0\<lparr>Writer := w\<rparr>) False") auto
  obtain evs1 rds1 out1 rw2 where
    rest: "realHandleGet_loop env cmd (Suc idx) keys rw1 = (evs1, rds1, out1, rw2)"
    by (cases "realHandleGet_loop env cmd (Suc idx) keys rw1") auto
  show ?case
  proof (cases i)
    case 0
    then show ?thesis
      using Cons.prems wr rd rest
      by (auto simp: emit_def index_def split: option.splits if_splits)
  next
    case (Suc j)
    have "\<exists>ev r. evs = DataOut ev # evs1 \<and> rds = r # rds1"
      using Cons.prems(1,2) wr rd rest Suc
      by (auto simp: emit_def index_def split: option.splits if_splits)
    then obtain ev r where cont: "evs = DataOut ev # evs1" "rds = r # rds1"
      by blast
    have "j < length rds1" "rds1 ! j = (data, flags, exp, Some ErrKeyNotFound)"
      using Cons.prems(2,3) Suc cont by simp_all
    then have ih: "j < length evs1 \<and> j < length keys
       \<and> evs1 ! j = DataOut \<lparr>res_Miss = True, res_Quiet = Quiet cmd ! (Suc idx + j),
                         res_Opaque = Opaques cmd ! (Suc idx + j), res_Flags = flags,
                         res_Key = keys ! j, res_Data = None\<rparr>
       \<and> (\<exists>rs. take j evs1 = map DataOut rs)"
      using Cons.IH [OF rest, of j] Cons.prems(4,5) Suc by simp
    then obtain rs where "take j evs1 = map DataOut rs"
      by blast
    then have "take i evs = map DataOut (ev # rs)"
      using cont Suc by simp
    then have "\<exists>rs. take i evs = map DataOut rs" ..
    then show ?thesis
      using ih cont Suc by simp
  qed
qed

lemma realHandleGet_loop_in_range:
  "realHandleGet_loop env cmd idx keys rw0 = (evs, rds, out, rw') \<Longrightarrow>
   idx + length keys \<le> length (Quiet cmd) \<Longrightarrow>
   idx + length keys \<le> length (Opaques cmd) \<Longrightarrow> out = Returned"
proof (induction keys arbitrary: idx rw0 evs rds out rw')
  case Nil
  then show ?case by simp
next
  case (Cons key keys)
  have "idx < length (Quiet cmd)" "idx < length (Opaques cmd)"
    "Suc idx + length keys \<le> length (Quiet cmd)" "Suc idx + length keys \<le> length (Opaques cmd)"
    using Cons.prems(2,3) by simp_all
  then show ?case
    using Cons.prems(1) Cons.IH
    by (fastforce simp: emit_def index_def split: prod.splits option.splits if_splits)
qed

lemma realHandleGet_loop_out_of_range:
  "realHandleGet_loop env cmd idx keys rw0 = (evs, rds, out, rw') \<Longrightarrow>
   m = min (length (Quiet cmd)) (length (Opaques cmd)) \<Longrightarrow>
   idx \<le> m \<Longrightarrow> m < idx + length keys \<Longrightarrow>
   (out = Panicked m m \<and> (\<exists>rs. evs = map DataOut rs \<and> idx + length rs = m))
   \<or> (out = Returned \<and> (\<exists>rs e. evs = map DataOut rs @ [ErrorOut e] \<and> idx + length rs \<le> m))"
proof (induction keys arbitrary: idx rw0 evs rds out rw')
  case Nil
  then show ?case by (simp add: min_def split: if_splits)
next
  case (Cons key keys)
  obtain werr1 w where wr: "WriteGetCmd env (Writer rw0) key 0 = (werr1, w)"
    by (cases "WriteGetCmd env (Writer rw0) key 0")
  obtain data flags exp rerr rw1 where
    rd: "getLocal env (rw0\<lparr>Writer := w\<rparr>) False = ((data, flags, exp, rerr), rw1)"
    by (cases "getLocal env (rw0\<lparr>Writer := w\<rparr>) False") auto
  obtain evs1 rds1 out1 rw2 where
    rest: "realHandleGet_loop env cmd (Suc idx) keys rw1 = (evs1, rds1, out1, rw2)"
    by (cases "realHandleGet_loop env cmd (Suc idx) keys rw1") auto
  show ?case
  proof (cases "werr1 = None \<and> (rerr = None \<or> rerr = Some ErrKeyNotFound)")
    case False
    then have "out = Returned \<and> (\<exists>e. evs = map DataOut [] @ [ErrorOut e])"
      using Cons.prems(1) wr rd
      by (auto split: option.splits if_splits)
    then show ?thesis using Cons.prems(3) by (metis add.right_neutral list.size(3))
  next
    case True
    show ?thesis
    proof (cases "idx < m")
      case False
      then have "idx = m" using Cons.prems(3) by simp
      then have "out = Panicked m m \<and> evs = map DataOut []"
        using Cons.prems(1,2) wr rd True
        by (auto simp: index_def min_def split: if_splits)
      then show ?thesis using \<open>idx = m\<close> by (metis add.right_neutral list.size(3))
    next
      case less: True
      then have rng: "idx < length (Quiet cmd)" "idx < length (Opaques cmd)"
        using Cons.prems(2) by simp_all
      then obtain ev where run: "evs = DataOut ev # evs1" "out = out1"
        using Cons.prems(1) wr rd rest True by (auto simp: emit_def index_def)
      have "(out1 = Panicked m m \<and> (\<exists>rs. evs1 = map DataOut rs \<and> Suc idx + length rs = m))
        \<or> (out1 = Returned \<and> (\<exists>rs e. evs1 = map DataOut rs @ [ErrorOut e] \<and> Suc idx + length rs \<le> m))"
        using Cons.IH [OF rest Cons.prems(2)] less Cons.prems(4) by simp
      then show ?thesis
      proof
        assume "out1 = Panicked m m \<and> (\<exists>rs. evs1 = map DataOut rs \<and> Suc idx + length rs = m)"
        then obtain rs where "out1 = Panicked m m" "evs1 = map DataOut rs" "Suc idx + length rs = m"
          by blast
        then have "out = Panicked m m \<and> evs = map DataOut (ev # rs) \<and> idx + length (ev # rs) = m"
          using run by simp
        then show ?thesis by blast
      next
        assume "out1 = Returned \<and> (\<exists>rs e. evs1 = map DataOut rs @ [ErrorOut e] \<and> Suc idx + length rs \<le> m)"
        then obtain rs e where "out1 = Returned" "evs1 = map DataOut rs @ [ErrorOut e]"
          "Suc idx + length rs \<le> m"
          by blast
        then have "out = Returned \<and> evs = map DataOut (ev # rs) @ [ErrorOut e]
            \<and> idx + length (ev # rs) \<le> m"
          using run by simp
        then show ?thesis by blast
      qed
    qed
  qed
qed


lemma realHandleGet_loop_Keys_update:
  "realHandleGet_loop env (cmd\<lparr>Keys := ks\<rparr>) idx keys rw0 = realHandleGet_loop env cmd idx keys rw0"
  by (induction keys arbitrary: idx rw0) (simp_all split: prod.splits option.splits sum.splits)

lemma realHandleGet_loop_reads_le:
  "realHandleGet_loop env cmd idx keys rw0 = (evs, rds, out, rw') \<Longrightarrow> length rds \<le> length keys"
proof (induction keys arbitrary: idx rw0 evs rds out rw')
  case Nil
  then show ?case by simp
next
  case (Cons key keys)
  then show ?case
    by (fastforce simp: emit_def index_def split: prod.splits option.splits if_splits)
qed

lemma realHandleGet_loop_reaches:
  "realHandleGet_loop env cmd idx keys rw0 = (evs, rds, out, rw') \<Longrightarrow>
   writable (Writer rw0) \<Longrightarrow>
   \<forall>rw1 b. writable (Writer rw1) \<longrightarrow> writable (Writer (snd (getLocal env rw1 b))) \<Longrightarrow>
   i < length keys \<Longrightarrow>
   idx + i \<le> length (Quiet cmd) \<Longrightarrow> idx + i \<le> length (Opaques cmd) \<Longrightarrow>
   \<forall>j < i. j < length rds \<longrightarrow> hit_or_miss (rds ! j) \<Longrightarrow>
   i < length rds"
proof (induction keys arbitrary: idx rw0 evs rds out rw' i)
  case Nil
  then show ?case by simp
next
  case (Cons key keys)
  obtain werr1 w where wr: "WriteGetCmd env (Writer rw0) key 0 = (werr1, w)"
    by (cases "WriteGetCmd env (Writer rw0) key 0")
  have w_ok: "werr1 = None" "writable w"
    using Write_writable [OF Cons.prems(2), of "encodeKey env OpcodeGet key 0"] wr
    by (simp_all add: WriteGetCmd_def)
  obtain data flags exp rerr rw1 where
    rd: "getLocal env (rw0\<lparr>Writer := w\<rparr>) False = ((data, flags, exp, rerr), rw1)"
    by (cases "getLocal env (rw0\<lparr>Writer := w\<rparr>) False") auto
  have w1: "writable (Writer rw1)"
    using Cons.prems(3) w_ok(2) rd
    by (metis ReadWriter.select_convs(2) ReadWriter.surjective ReadWriter.update_convs(2) snd_conv)
  obtain evs1 rds1 out1 rw2 where
    rest: "realHandleGet_loop env cmd (Suc idx) keys rw1 = (evs1, rds1, out1, rw2)"
    by (cases "realHandleGet_loop env cmd (Suc idx) keys rw1") auto
  have first: "rds \<noteq> [] \<and> hd rds = (data, flags, exp, rerr)"
    using Cons.prems(1) wr rd w_ok(1)
    by (auto simp: emit_def index_def split: option.splits if_splits prod.splits)
  show ?case
  proof (cases i)
    case 0
    then show ?thesis using first by simp
  next
    case (Suc j)
    have rng: "idx < length (Quiet cmd)" "idx < length (Opaques cmd)"
      using Cons.prems(5,6) Suc by simp_all
    have "hit_or_miss (rds ! 0)"
      using Cons.prems(7) Suc first by simp
    then have hm: "rerr = None \<or> rerr = Some ErrKeyNotFound"
      using first by (cases rds) (simp_all add: hit_or_miss_def)
    have run: "rds = (data, flags, exp, rerr) # rds1"
      using Cons.prems(1) wr rd rest w_ok(1) rng hm
      by (auto simp: emit_def index_def)
    have "j < length rds1"
    proof (rule Cons.IH [OF rest w1 Cons.prems(3)])
      show "j < length keys" using Cons.prems(4) Suc by simp
      show "Suc idx + j \<le> length (Quiet cmd)" "Suc idx + j \<le> length (Opaques cmd)"
        using Cons.prems(5,6) Suc by simp_all
      show "\<forall>ja<j. ja < length rds1 \<longrightarrow> hit_or_miss (rds1 ! ja)"
        using Cons.prems(7) Suc run by auto
    qed
    then show ?thesis using run Suc by simp
  qed
qed

lemma realHandleGet_loop_panics:
  "realHandleGet_loop env cmd idx keys rw0 = (evs, rds, out, rw') \<Longrightarrow>
   m = min (length (Quiet cmd)) (length (Opaques cmd)) \<Longrightarrow>
   i < length rds \<Longrightarrow> hit_or_miss (rds ! i) \<Longrightarrow> idx + i = m \<Longrightarrow>
   out = Panicked m m \<and> (\<exists>rs. evs = map DataOut rs \<and> length rs = i) \<and> length rds = Suc i"
proof (induction keys arbitrary: idx rw0 evs rds out rw' i)
  case Nil
  then show ?case by simp
next
  case (Cons key keys)
  obtain werr1 w where wr: "WriteGetCmd env (Writer rw0) key 0 = (werr1, w)"
    by (cases "WriteGetCmd env (Writer rw0) key 0")
  obtain data flags exp rerr rw1 where
    rd: "getLocal env (rw0\<lparr>Writer := w\<rparr>) False = ((data, flags, exp, rerr), rw1)"
    by (cases "getLocal env (rw0\<lparr>Writer := w\<rparr>) False") auto
  obtain evs1 rds1 out1 rw2 where
    rest: "realHandleGet_loop env cmd (Suc idx) keys rw1 = (evs1, rds1, out1, rw2)"
    by (cases "realHandleGet_loop env cmd (Suc idx) keys rw1") auto
  show ?case
  proof (cases i)
    case 0
    then have "idx = m" using Cons.prems(5) by simp
    then show ?thesis
      using Cons.prems(1,2,3,4) wr rd 0
      by (auto simp: index_def hit_or_miss_def min_def split: option.splits if_splits)
  next
    case (Suc j)
    have "\<exists>ev r. evs = DataOut ev # evs1 \<and> rds = r # rds1 \<and> out = out1"
      using Cons.prems(1,3) wr rd rest Suc
      by (auto simp: emit_def index_def split: option.splits if_splits)
    then obtain ev r where cont: "evs = DataOut ev # evs1" "rds = r # rds1" "out = out1"
      by blast
    have "out1 = Panicked m m \<and> (\<exists>rs. evs1 = map DataOut rs \<and> length rs = j) \<and> length rds1 = Suc j"
      using Cons.IH [OF rest Cons.prems(2), of j] Cons.prems(3,4,5) cont Suc by simp
    then obtain rs where "out1 = Panicked m m" "evs1 = map DataOut rs" "length rs = j"
      "length rds1 = Suc j"
      by blast
    then have "out = Panicked m m \<and> evs = map DataOut (ev # rs) \<and> length (ev # rs) = i
        \<and> length rds = Suc i"
      using cont Suc by simp
    then show ?thesis by blast
  qed
qed

lemma realHandleGet_loop_stops_with_error:
  "realHandleGet_loop env cmd idx keys rw0 = (evs, rds, out, rw') \<Longrightarrow>
   evs = map DataOut rs @ [ErrorOut e] \<Longrightarrow>
   out = Returned
   \<and> (length rds = length rs
      \<or> (length rds = Suc (length rs) \<and> result_err (rds ! length rs) = Some e
          \<and> e \<noteq> ErrKeyNotFound))"
proof (induction keys arbitrary: idx rw0 evs rds out rw' rs)
  case Nil
  then show ?case by simp
next
  case (Cons key keys)
  obtain werr1 w where wr: "WriteGetCmd env (Writer rw0) key 0 = (werr1, w)"
    by (cases "WriteGetCmd env (Writer rw0) key 0")
  obtain data flags exp rerr rw1 where
    rd: "getLocal env (rw0\<lparr>Writer := w\<rparr>) False = ((data, flags, exp, rerr), rw1)"
    by (cases "getLocal env (rw0\<lparr>Writer := w\<rparr>) False") auto
  obtain evs1 rds1 out1 rw2 where
    rest: "realHandleGet_loop env cmd (Suc idx) keys rw1 = (evs1, rds1, out1, rw2)"
    by (cases "realHandleGet_loop env cmd (Suc idx) keys rw1") auto
  show ?case
  proof (cases rs)
    case Nil
    then show ?thesis
      using Cons.prems wr rd rest
      by (auto simp: emit_def index_def split: option.splits if_splits)
  next
    case (Cons r rs1)
    then have "\<exists>x. evs = DataOut r # evs1 \<and> rds = x # rds1 \<and> out = out1"
      using Cons.prems wr rd rest
      by (auto simp: emit_def index_def split: option.splits if_splits)
    then obtain x where cont: "evs = DataOut r # evs1" "rds = x # rds1" "out = out1"
      by blast
    then have "evs1 = map DataOut rs1 @ [ErrorOut e]"
      using Cons.prems(2) Cons by simp
    then have "out1 = Returned
       \<and> (length rds1 = length rs1
          \<or> (length rds1 = Suc (length rs1) \<and> result_err (rds1 ! length rs1) = Some e
              \<and> e \<noteq> ErrKeyNotFound))"
      using Cons.IH [OF rest] by simp
    then show ?thesis
      using cont Cons by auto
  qed
qed

lemma realHandleGet_loop_reads_all:
  assumes "realHandleGet_loop env cmd idx keys rw0 = (evs, rds, out, rw')"
      and "writable (Writer rw0)"
      and "\<forall>rw1 b. writable (Writer rw1) \<longrightarrow> writable (Writer (snd (getLocal env rw1 b)))"
      and "idx + length keys \<le> length (Quiet cmd)"
      and "idx + length keys \<le> length (Opaques cmd)"
      and "\<forall>r \<in> set rds. hit_or_miss r"
  shows "length rds = length keys"
proof (cases keys)
  case Nil
  then show ?thesis using realHandleGet_loop_reads_le [OF assms(1)] by simp
next
  case (Cons key keys')
  have "length keys - 1 < length rds"
  proof (rule realHandleGet_loop_reaches [OF assms(1,2,3)])
    show "length keys - 1 < length keys" using Cons by simp
    show "idx + (length keys - 1) \<le> length (Quiet cmd)"
      "idx + (length keys - 1) \<le> length (Opaques cmd)"
      using assms(4,5) by simp_all
    show "\<forall>j<length keys - 1. j < length rds \<longrightarrow> hit_or_miss (rds ! j)"
      using assms(6) by simp
  qed
  then show ?thesis using realHandleGet_loop_reads_le [OF assms(1)] by simp
qed

subsection \<open>The loop of the batched get with expiration times\<close>

lemma realHandleGetE_loop_fails_fast:
  "realHandleGetE_loop env cmd idx keys rw0 = (evs, rds, out, rw') \<Longrightarrow>
   i < length rds \<Longrightarrow> result_err (rds ! i) = Some e \<Longrightarrow> e \<noteq> ErrKeyNotFound \<Longrightarrow>
   (\<exists>rs. evs = map DataOut rs @ [ErrorOut e] \<and> length rs = i) \<and> length rds = Suc i
   \<and> out = Returned
   \<and> realHandleGetE_loop env cmd idx (take (Suc i) keys) rw0 = (evs, rds, out, rw')"
proof (induction keys arbitrary: idx rw0 evs rds out rw' i)
  case Nil
  then show ?case by simp
next
  case (Cons key keys)
  obtain werr1 w where wr: "WriteGetECmd env (Writer rw0) key 0 = (werr1, w)"
    by (cases "WriteGetECmd env (Writer rw0) key 0")
  obtain data flags exp rerr rw1 where
    rd: "getLocal env (rw0\<lparr>Writer := w\<rparr>) True = ((data, flags, exp, rerr), rw1)"
    by (cases "getLocal env (rw0\<lparr>Writer := w\<rparr>) True") auto
  obtain evs1 rds1 out1 rw2 where
    rest: "realHandleGetE_loop env cmd (Suc idx) keys rw1 = (evs1, rds1, out1, rw2)"
    by (cases "realHandleGetE_loop env cmd (Suc idx) keys rw1") auto
  show ?case
  proof (cases "werr1 = None \<and> (rerr = None \<or> rerr = Some ErrKeyNotFound)
                 \<and> idx < length (Quiet cmd) \<and> idx < length (Opaques cmd)")
    case True
    then obtain ev where
      run: "evs = DataOut ev # evs1" "rds = (data, flags, exp, rerr) # rds1" "out = out1" "rw' = rw2"
      using Cons.prems(1) wr rd rest by (auto simp: emit_def index_def)
    from run Cons.prems True obtain j where j: "i = Suc j"
      by (cases i) auto
    have "(\<exists>rs. evs1 = map DataOut rs @ [ErrorOut e] \<and> length rs = j) \<and> length rds1 = Suc j
       \<and> out1 = Returned
       \<and> realHandleGetE_loop env cmd (Suc idx) (take (Suc j) keys) rw1 = (evs1, rds1, out1, rw2)"
      using Cons.IH [OF rest, of j] Cons.prems run j by simp
    then obtain rs where rs: "evs1 = map DataOut rs @ [ErrorOut e]" "length rs = j"
      and more: "length rds1 = Suc j" "out1 = Returned"
        "realHandleGetE_loop env cmd (Suc idx) (take (Suc j) keys) rw1 = (evs1, rds1, out1, rw2)"
      by blast
    have "evs = map DataOut (ev # rs) @ [ErrorOut e] \<and> length (ev # rs) = i"
      using run rs j by simp
    then have "\<exists>rs. evs = map DataOut rs @ [ErrorOut e] \<and> length rs = i" ..
    moreover have "realHandleGetE_loop env cmd idx (take (Suc i) (key # keys)) rw0 = (evs, rds, out, rw')"
      using Cons.prems(1) wr rd rest True more(3) j by (auto simp: emit_def index_def)
    ultimately show ?thesis using run more(1,2) j by simp
  next
    case False
    then show ?thesis
      using Cons.prems wr rd
      by (auto simp: index_def split: if_splits option.splits)
  qed
qed


lemma realHandleGetE_loop_all_miss:
  "realHandleGetE_loop env cmd idx keys rw0 = (evs, rds, out, rw') \<Longrightarrow>
   length rds = length keys \<Longrightarrow>
   \<forall>r \<in> set rds. result_err r = Some ErrKeyNotFound \<Longrightarrow>
   idx + length keys \<le> length (Quiet cmd) \<Longrightarrow>
   idx + length keys \<le> length (Opaques cmd) \<Longrightarrow>
   evs = map (\<lambda>i. DataOut \<lparr>rese_Miss = True, rese_Quiet = Quiet cmd ! (idx + i),
                            rese_Opaque = Opaques cmd ! (idx + i),
                            rese_Flags = result_flags (rds ! i),
                            rese_Exptime = result_exp (rds ! i), rese_Key = keys ! i,
                            rese_Data = None\<rparr>) [0..<length keys]
   \<and> out = Returned"
proof (induction keys arbitrary: idx rw0 evs rds out rw')
  case Nil
  then show ?case by simp
next
  case (Cons key keys)
  obtain werr1 w where wr: "WriteGetECmd env (Writer rw0) key 0 = (werr1, w)"
    by (cases "WriteGetECmd env (Writer rw0) key 0")
  obtain data flags exp rerr rw1 where
    rd: "getLocal env (rw0\<lparr>Writer := w\<rparr>) True = ((data, flags, exp, rerr), rw1)"
    by (cases "getLocal env (rw0\<lparr>Writer := w\<rparr>) True") auto
  obtain evs1 rds1 out1 rw2 where
    rest: "realHandleGetE_loop env cmd (Suc idx) keys rw1 = (evs1, rds1, out1, rw2)"
    by (cases "realHandleGetE_loop env cmd (Suc idx) keys rw1") auto
  have w_ok: "werr1 = None"
    using Cons.prems(1,2) wr by (cases werr1) auto
  have in_range: "idx < length (Quiet cmd)" "idx < length (Opaques cmd)"
    using Cons.prems(4,5) by simp_all
  have miss: "rerr = Some ErrKeyNotFound"
    using Cons.prems(1,2,3) wr rd rest w_ok in_range
    by (cases rerr) (auto simp: emit_def index_def split: if_splits)
  have run: "evs = DataOut \<lparr>rese_Miss = True, rese_Quiet = Quiet cmd ! idx,
                            rese_Opaque = Opaques cmd ! idx, rese_Flags = flags, rese_Exptime = exp,
                            rese_Key = key, rese_Data = None\<rparr> # evs1"
       "rds = (data, flags, exp, rerr) # rds1" "out = out1"
    using Cons.prems(1) wr rd rest w_ok in_range miss by (simp_all add: emit_def index_def)
  have ih: "evs1 = map (\<lambda>i. DataOut \<lparr>rese_Miss = True, rese_Quiet = Quiet cmd ! (Suc idx + i),
                            rese_Opaque = Opaques cmd ! (Suc idx + i),
                            rese_Flags = result_flags (rds1 ! i),
                            rese_Exptime = result_exp (rds1 ! i), rese_Key = keys ! i,
                            rese_Data = None\<rparr>) [0..<length keys] \<and> out1 = Returned"
    using Cons.IH [OF rest] Cons.prems(2-5) run by simp
  show ?case
    using run ih by (simp add: map_upt_Suc del: upt_Suc)
qed

lemma realHandleGetE_loop_miss:
  "realHandleGetE_loop env cmd idx keys rw0 = (evs, rds, out, rw') \<Longrightarrow>
   i < length rds \<Longrightarrow> rds ! i = (data, flags, exp, Some ErrKeyNotFound) \<Longrightarrow>
   idx + i < length (Quiet cmd) \<Longrightarrow> idx + i < length (Opaques cmd) \<Longrightarrow>
   i < length evs \<and> i < length keys
   \<and> evs ! i = DataOut \<lparr>rese_Miss = True, rese_Quiet = Quiet cmd ! (idx + i),
                         rese_Opaque = Opaques cmd ! (idx + i), rese_Flags = flags, rese_Exptime = exp,
                         rese_Key = keys ! i, rese_Data = None\<rparr>
   \<and> (\<exists>rs. take i evs = map DataOut rs)"
proof (induction keys arbitrary: idx rw0 evs rds out rw' i)
  case Nil
  then show ?case by simp
next
  case (Cons key keys)
  obtain werr1 w where wr: "WriteGetECmd env (Writer rw0) key 0 = (werr1, w)"
    by (cases "WriteGetECmd env (Writer rw0) key 0")
  obtain data1 flags1 exp1 rerr rw1 where
    rd: "getLocal env (rw0\<lparr>Writer := w\<rparr>) True = ((data1, flags1, exp1, rerr), rw1)"
    by (cases "getLocal env (rw0\<lparr>Writer := w\<rparr>) True") auto
  obtain evs1 rds1 out1 rw2 where
    rest: "realHandleGetE_loop env cmd (Suc idx) keys rw1 = (evs1, rds1, out1, rw2)"
    by (cases "realHandleGetE_loop env cmd (Suc idx) keys rw1") auto
  show ?case
  proof (cases i)
    case 0
    then show ?thesis
      using Cons.prems wr rd rest
      by (auto simp: emit_def index_def split: option.splits if_splits)
  next
    case (Suc j)
    have "\<exists>ev r. evs = DataOut ev # evs1 \<and> rds = r # rds1"
      using Cons.prems(1,2) wr rd rest Suc
      by (auto simp: emit_def index_def split: option.splits if_splits)
    then obtain ev r where cont: "evs = DataOut ev # evs1" "rds = r # rds1"
      by blast
    have "j < length rds1" "rds1 ! j = (data, flags, exp, Some ErrKeyNotFound)"
      using Cons.prems(2,3) Suc cont by simp_all
    then have ih: "j < length evs1 \<and> j < length keys
       \<and> evs1 ! j = DataOut \<lparr>rese_Miss = True, rese_Quiet = Quiet cmd ! (Suc idx + j),
                         rese_Opaque = Opaques cmd ! (Suc idx + j), rese_Flags = flags, rese_Exptime = exp,
                         rese_Key = keys ! j, rese_Data = None\<rparr>
       \<and> (\<exists>rs. take j evs1 = map DataOut rs)"
      using Cons.IH [OF rest, of j] Cons.prems(4,5) Suc by simp
    then obtain rs where "take j evs1 = map DataOut rs"
      by blast
    then have "take i evs = map DataOut (ev # rs)"
      using cont Suc by simp
    then have "\<exists>rs. take i evs = map DataOut rs" ..
    then show ?thesis
      using ih cont Suc by simp
  qed
qed

lemma realHandleGetE_loop_in_range:
  "realHandleGetE_loop env cmd idx keys rw0 = (evs, rds, out, rw') \<Longrightarrow>
   idx + length keys \<le> length (Quiet cmd) \<Longrightarrow>
   idx + length keys \<le> length (Opaques cmd) \<Longrightarrow> out = Returned"
proof (induction keys arbitrary: idx rw0 evs rds out rw')
  case Nil
  then show ?case by simp
next
  case (Cons key keys)
  have "idx < length (Quiet cmd)" "idx < length (Opaques cmd)"
    "Suc idx + length keys \<le> length (Quiet cmd)" "Suc idx + length keys \<le> length (Opaques cmd)"
    using Cons.prems(2,3) by simp_all
  then show ?case
    using Cons.prems(1) Cons.IH
    by (fastforce simp: emit_def index_def split: prod.splits option.splits if_splits)
qed

lemma realHandleGetE_loop_out_of_range:
  "realHandleGetE_loop env cmd idx keys rw0 = (evs, rds, out, rw') \<Longrightarrow>
   m = min (length (Quiet cmd)) (length (Opaques cmd)) \<Longrightarrow>
   idx \<le> m \<Longrightarrow> m < idx + length keys \<Longrightarrow>
   (out = Panicked m m \<and> (\<exists>rs. evs = map DataOut rs \<and> idx + length rs = m))
   \<or> (out = Returned \<and> (\<exists>rs e. evs = map DataOut rs @ [ErrorOut e] \<and> idx + length rs \<le> m))"
proof (induction keys arbitrary: idx rw0 evs rds out rw')
  case Nil
  then show ?case by (simp add: min_def split: if_splits)
next
  case (Cons key keys)
  obtain werr1 w where wr: "WriteGetECmd env (Writer rw0) key 0 = (werr1, w)"
    by (cases "WriteGetECmd env (Writer rw0) key 0")
  obtain data flags exp rerr rw1 where
    rd: "getLocal env (rw0\<lparr>Writer := w\<rparr>) True = ((data, flags, exp, rerr), rw1)"
    by (cases "getLocal env (rw0\<lparr>Writer := w\<rparr>) True") auto
  obtain evs1 rds1 out1 rw2 where
    rest: "realHandleGetE_loop env cmd (Suc idx) keys rw1 = (evs1, rds1, out1, rw2)"
    by (cases "realHandleGetE_loop env cmd (Suc idx) keys rw1") auto
  show ?case
  proof (cases "werr1 = None \<and> (rerr = None \<or> rerr = Some ErrKeyNotFound)")
    case False
    then have "out = Returned \<and> (\<exists>e. evs = map DataOut [] @ [ErrorOut e])"
      using Cons.prems(1) wr rd
      by (auto split: option.splits if_splits)
    then show ?thesis using Cons.prems(3) by (metis add.right_neutral list.size(3))
  next
    case True
    show ?thesis
    proof (cases "idx < m")
      case False
      then have "idx = m" using Cons.prems(3) by simp
      then have "out = Panicked m m \<and> evs = map DataOut []"
        using Cons.prems(1,2) wr rd True
        by (auto simp: index_def min_def split: if_splits)
      then show ?thesis using \<open>idx = m\<close> by (metis add.right_neutral list.size(3))
    next
      case less: True
      then have rng: "idx < length (Quiet cmd)" "idx < length (Opaques cmd)"
        using Cons.prems(2) by simp_all
      then obtain ev where run: "evs = DataOut ev # evs1" "out = out1"
        using Cons.prems(1) wr rd rest True by (auto simp: emit_def index_def)
      have "(out1 = Panicked m m \<and> (\<exists>rs. evs1 = map DataOut rs \<and> Suc idx + length rs = m))
        \<or> (out1 = Returned \<and> (\<exists>rs e. evs1 = map DataOut rs @ [ErrorOut e] \<and> Suc idx + length rs \<le> m))"
        using Cons.IH [OF rest Cons.prems(2)] less Cons.prems(4) by simp
      then show ?thesis
      proof
        assume "out1 = Panicked m m \<and> (\<exists>rs. evs1 = map DataOut rs \<and> Suc idx + length rs = m)"
        then obtain rs where "out1 = Panicked m m" "evs1 = map DataOut rs" "Suc idx + length rs = m"
          by blast
        then have "out = Panicked m m \<and> evs = map DataOut (ev # rs) \<and> idx + length (ev # rs) = m"
          using run by simp
        then show ?thesis by blast
      next
        assume "out1 = Returned \<and> (\<exists>rs e. evs1 = map DataOut rs @ [ErrorOut e] \<and> Suc idx + length rs \<le> m)"
        then obtain rs e where "out1 = Returned" "evs1 = map DataOut rs @ [ErrorOut e]"
          "Suc idx + length rs \<le> m"
          by blast
        then have "out = Returned \<and> evs = map DataOut (ev # rs) @ [ErrorOut e]
            \<and> idx + length (ev # rs) \<le> m"
          using run by simp
        then show ?thesis by blast
      qed
    qed
  qed
qed


lemma realHandleGetE_loop_Keys_update:
  "realHandleGetE_loop env (cmd\<lparr>Keys := ks\<rparr>) idx keys rw0 = realHandleGetE_loop env cmd idx keys rw0"
  by (induction keys arbitrary: idx rw0) (simp_all split: prod.splits option.splits sum.splits)

lemma realHandleGetE_loop_reads_le:
  "realHandleGetE_loop env cmd idx keys rw0 = (evs, rds, out, rw') \<Longrightarrow> length rds \<le> length keys"
proof (induction keys arbitrary: idx rw0 evs rds out rw')
  case Nil
  then show ?case by simp
next
  case (Cons key keys)
  then show ?case
    by (fastforce simp: emit_def index_def split: prod.splits option.splits if_splits)
qed

lemma realHandleGetE_loop_reaches:
  "realHandleGetE_loop env cmd idx keys rw0 = (evs, rds, out, rw') \<Longrightarrow>
   writable (Writer rw0) \<Longrightarrow>
   \<forall>rw1 b. writable (Writer rw1) \<longrightarrow> writable (Writer (snd (getLocal env rw1 b))) \<Longrightarrow>
   i < length keys \<Longrightarrow>
   idx + i \<le> length (Quiet cmd) \<Longrightarrow> idx + i \<le> length (Opaques cmd) \<Longrightarrow>
   \<forall>j < i. j < length rds \<longrightarrow> hit_or_miss (rds ! j) \<Longrightarrow>
   i < length rds"
proof (induction keys arbitrary: idx rw0 evs rds out rw' i)
  case Nil
  then show ?case by simp
next
  case (Cons key keys)
  obtain werr1 w where wr: "WriteGetECmd env (Writer rw0) key 0 = (werr1, w)"
    by (cases "WriteGetECmd env (Writer rw0) key 0")
  have w_ok: "werr1 = None" "writable w"
    using Write_writable [OF Cons.prems(2), of "encodeKey env OpcodeGetE key 0"] wr
    by (simp_all add: WriteGetECmd_def)
  obtain data flags exp rerr rw1 where
    rd: "getLocal env (rw0\<lparr>Writer := w\<rparr>) True = ((data, flags, exp, rerr), rw1)"
    by (cases "getLocal env (rw0\<lparr>Writer := w\<rparr>) True") auto
  have w1: "writable (Writer rw1)"
    using Cons.prems(3) w_ok(2) rd
    by (metis ReadWriter.select_convs(2) ReadWriter.surjective ReadWriter.update_convs(2) snd_conv)
  obtain evs1 rds1 out1 rw2 where
    rest: "realHandleGetE_loop env cmd (Suc idx) keys rw1 = (evs1, rds1, out1, rw2)"
    by (cases "realHandleGetE_loop env cmd (Suc idx) keys rw1") auto
  have first: "rds \<noteq> [] \<and> hd rds = (data, flags, exp, rerr)"
    using Cons.prems(1) wr rd w_ok(1)
    by (auto simp: emit_def index_def split: option.splits if_splits prod.splits)
  show ?case
  proof (cases i)
    case 0
    then show ?thesis using first by simp
  next
    case (Suc j)
    have rng: "idx < length (Quiet cmd)" "idx < length (Opaques cmd)"
      using Cons.prems(5,6) Suc by simp_all
    have "hit_or_miss (rds ! 0)"
      using Cons.prems(7) Suc first by simp
    then have hm: "rerr = None \<or> rerr = Some ErrKeyNotFound"
      using first by (cases rds) (simp_all add: hit_or_miss_def)
    have run: "rds = (data, flags, exp, rerr) # rds1"
      using Cons.prems(1) wr rd rest w_ok(1) rng hm
      by (auto simp: emit_def index_def)
    have "j < length rds1"
    proof (rule Cons.IH [OF rest w1 Cons.prems(3)])
      show "j < length keys" using Cons.prems(4) Suc by simp
      show "Suc idx + j \<le> length (Quiet cmd)" "Suc idx + j \<le> length (Opaques cmd)"
        using Cons.prems(5,6) Suc by simp_all
      show "\<forall>ja<j. ja < length rds1 \<longrightarrow> hit_or_miss (rds1 ! ja)"
        using Cons.prems(7) Suc run by auto
    qed
    then show ?thesis using run Suc by simp
  qed
qed

lemma realHandleGetE_loop_panics:
  "realHandleGetE_loop env cmd idx keys rw0 = (evs, rds, out, rw') \<Longrightarrow>
   m = min (length (Quiet cmd)) (length (Opaques cmd)) \<Longrightarrow>
   i < length rds \<Longrightarrow> hit_or_miss (rds ! i) \<Longrightarrow> idx + i = m \<Longrightarrow>
   out = Panicked m m \<and> (\<exists>rs. evs = map DataOut rs \<and> length rs = i) \<and> length rds = Suc i"
proof (induction keys arbitrary: idx rw0 evs rds out rw' i)
  case Nil
  then show ?case by simp
next
  case (Cons key keys)
  obtain werr1 w where wr: "WriteGetECmd env (Writer rw0) key 0 = (werr1, w)"
    by (cases "WriteGetECmd env (Writer rw0) key 0")
  obtain data flags exp rerr rw1 where
    rd: "getLocal env (rw0\<lparr>Writer := w\<rparr>) True = ((data, flags, exp, rerr), rw1)"
    by (cases "getLocal env (rw0\<lparr>Writer := w\<rparr>) True") auto
  obtain evs1 rds1 out1 rw2 where
    rest: "realHandleGetE_loop env cmd (Suc idx) keys rw1 = (evs1, rds1, out1, rw2)"
    by (cases "realHandleGetE_loop env cmd (Suc idx) keys rw1") auto
  show ?case
  proof (cases i)
    case 0
    then have "idx = m" using Cons.prems(5) by simp
    then show ?thesis
      using Cons.prems(1,2,3,4) wr rd 0
      by (auto simp: index_def hit_or_miss_def min_def split: option.splits if_splits)
  next
    case (Suc j)
    have "\<exists>ev r. evs = DataOut ev # evs1 \<and> rds = r # rds1 \<and> out = out1"
      using Cons.prems(1,3) wr rd rest Suc
      by (auto simp: emit_def index_def split: option.splits if_splits)
    then obtain ev r where cont: "evs = DataOut ev # evs1" "rds = r # rds1" "out = out1"
      by blast
    have "out1 = Panicked m m \<and> (\<exists>rs. evs1 = map DataOut rs \<and> length rs = j) \<and> length rds1 = Suc j"
      using Cons.IH [OF rest Cons.prems(2), of j] Cons.prems(3,4,5) cont Suc by simp
    then obtain rs where "out1 = Panicked m m" "evs1 = map DataOut rs" "length rs = j"
      "length rds1 = Suc j"
      by blast
    then have "out = Panicked m m \<and> evs = map DataOut (ev # rs) \<and> length (ev # rs) = i
        \<and> length rds = Suc i"
      using cont Suc by simp
    then show ?thesis by blast
  qed
qed

lemma realHandleGetE_loop_stops_with_error:
  "realHandleGetE_loop env cmd idx keys rw0 = (evs, rds, out, rw') \<Longrightarrow>
   evs = map DataOut rs @ [ErrorOut e] \<Longrightarrow>
   out = Returned
   \<and> (length rds = length rs
      \<or> (length rds = Suc (length rs) \<and> result_err (rds ! length rs) = Some e
          \<and> e \<noteq> ErrKeyNotFound))"
proof (induction keys arbitrary: idx rw0 evs rds out rw' rs)
  case Nil
  then show ?case by simp
next
  case (Cons key keys)
  obtain werr1 w where wr: "WriteGetECmd env (Writer rw0) key 0 = (werr1, w)"
    by (cases "WriteGetECmd env (Writer rw0) key 0")
  obtain data flags exp rerr rw1 where
    rd: "getLocal env (rw0\<lparr>Writer := w\<rparr>) True = ((data, flags, exp, rerr), rw1)"
    by (cases "getLocal env (rw0\<lparr>Writer := w\<rparr>) True") auto
  obtain evs1 rds1 out1 rw2 where
    rest: "realHandleGetE_loop env cmd (Suc idx) keys rw1 = (evs1, rds1, out1, rw2)"
    by (cases "realHandleGetE_loop env cmd (Suc idx) keys rw1") auto
  show ?case
  proof (cases rs)
    case Nil
    then show ?thesis
      using Cons.prems wr rd rest
      by (auto simp: emit_def index_def split: option.splits if_splits)
  next
    case (Cons r rs1)
    then have "\<exists>x. evs = DataOut r # evs1 \<and> rds = x # rds1 \<and> out = out1"
      using Cons.prems wr rd rest
      by (auto simp: emit_def index_def split: option.splits if_splits)
    then obtain x where cont: "evs = DataOut r # evs1" "rds = x # rds1" "out = out1"
      by blast
    then have "evs1 = map DataOut rs1 @ [ErrorOut e]"
      using Cons.prems(2) Cons by simp
    then have "out1 = Returned
       \<and> (length rds1 = length rs1
          \<or> (length rds1 = Suc (length rs1) \<and> result_err (rds1 ! length rs1) = Some e
              \<and> e \<noteq> ErrKeyNotFound))"
      using Cons.IH [OF rest] by simp
    then show ?thesis
      using cont Cons by auto
  qed
qed

lemma realHandleGetE_loop_reads_all:
  assumes "realHandleGetE_loop env cmd idx keys rw0 = (evs, rds, out, rw')"
      and "writable (Writer rw0)"
      and "\<forall>rw1 b. writable (Writer rw1) \<longrightarrow> writable (Writer (snd (getLocal env rw1 b)))"
      and "idx + length keys \<le> length (Quiet cmd)"
      and "idx + length keys \<le> length (Opaques cmd)"
      and "\<forall>r \<in> set rds. hit_or_miss r"
  shows "length rds = length keys"
proof (cases keys)
  case Nil
  then show ?thesis using realHandleGetE_loop_reads_le [OF assms(1)] by simp
next
  case (Cons key keys')
  have "length keys - 1 < length rds"
  proof (rule realHandleGetE_loop_reaches [OF assms(1,2,3)])
    show "length keys - 1 < length keys" using Cons by simp
    show "idx + (length keys - 1) \<le> length (Quiet cmd)"
      "idx + (length keys - 1) \<le> length (Opaques cmd)"
      using assms(4,5) by simp_all
    show "\<forall>j<length keys - 1. j < length rds \<longrightarrow> hit_or_miss (rds ! j)"
      using assms(6) by simp
  qed
  then show ?thesis using realHandleGetE_loop_reads_le [OF assms(1)] by simp
qed

subsection \<open>Runs of the batched get on concrete inputs\<close>

lemmas sample_defs =
  Get_def GetE_def realHandleGet_def realHandleGetE_def GAT_def sampleEnv_def sampleHandler_def
  WriteGetCmd_def WriteGetECmd_def WriteGATCmd_def Write_def Flush_def conn_Write_def
  defaultBufSize_def sample_getLocal_def sample_ReadResponseHeader_def sample_DecodeError_def
  sample_opcode_def Discard_def unread_def index_def emit_def zeroResponseHeader_def
  sampleGet2_def sampleGet3_def sampleGetShort_def sampleGAT_def

lemma sample_fields [simp]:
  "Keys sampleGet2 = [[107, 49], [107, 50]]" "Opaques sampleGet2 = [5, 6]"
  "Quiet sampleGet2 = [True, False]"
  "Keys sampleGet3 = [[107, 49], [107, 50], [107, 51]]" "Opaques sampleGet3 = [5, 6, 7]"
  "Quiet sampleGet3 = [True, False, True]"
  "Keys sampleGetShort = [[107, 49], [107, 50]]" "Opaques sampleGetShort = [5]"
  "Quiet sampleGetShort = [True, False]"
  "gat_Key sampleGAT = [107, 49]" "gat_Exptime sampleGAT = 60" "gat_Opaque sampleGAT = 9"
  by (simp_all add: sampleGet2_def sampleGet3_def sampleGetShort_def sampleGAT_def)

lemma sample_Get_second_fails:
  "Get sampleEnv sampleGet3 (sampleHandler [1, 0, 3, 0, 0, 0]) =
   ([DataOut \<lparr>res_Miss = True, res_Quiet = True, res_Opaque = 5, res_Flags = 0,
               res_Key = [107, 49], res_Data = None\<rparr>,
     ErrorOut (ErrStatus 3), CloseData, CloseError],
    [(None, 0, 0, Some ErrKeyNotFound), (None, 0, 0, Some (ErrStatus 3))],
    Returned,
    \<lparr>Reader = \<lparr>rbuf = [], incoming = [0, 0], rd_fail = ErrEOF, rd_closed = False\<rparr>,
     Writer = \<lparr>wbuf = [], werr = None, sent = [0, 2, 0, 107, 49, 0, 2, 0, 107, 50],
               wr_fail = None, wr_closed = False\<rparr>\<rparr>)"
  by (simp add: sample_defs)

lemma sample_GetE_second_fails:
  "GetE sampleEnv sampleGet3 (sampleHandler [0, 1, 42, 9, 0, 0, 0]) =
   ([DataOut \<lparr>rese_Miss = False, rese_Quiet = True, rese_Opaque = 5, rese_Flags = 7,
               rese_Exptime = 9, rese_Key = [107, 49], rese_Data = Some [42]\<rparr>,
     ErrorOut (ErrStatus 9), CloseData, CloseError],
    [(Some [42], 7, 9, None), (None, 0, 0, Some (ErrStatus 9))],
    Returned,
    \<lparr>Reader = \<lparr>rbuf = [], incoming = [0, 0], rd_fail = ErrEOF, rd_closed = False\<rparr>,
     Writer = \<lparr>wbuf = [], werr = None, sent = [64, 2, 0, 107, 49, 64, 2, 0, 107, 50],
               wr_fail = None, wr_closed = False\<rparr>\<rparr>)"
  by (simp add: sample_defs)

lemma sample_Get_two_misses:
  "Get sampleEnv sampleGet2 (sampleHandler [1, 0, 1, 0]) =
   ([DataOut \<lparr>res_Miss = True, res_Quiet = True, res_Opaque = 5, res_Flags = 0,
               res_Key = [107, 49], res_Data = None\<rparr>,
     DataOut \<lparr>res_Miss = True, res_Quiet = False, res_Opaque = 6, res_Flags = 0,
               res_Key = [107, 50], res_Data = None\<rparr>,
     CloseData, CloseError],
    [(None, 0, 0, Some ErrKeyNotFound), (None, 0, 0, Some ErrKeyNotFound)],
    Returned,
    \<lparr>Reader = \<lparr>rbuf = [], incoming = [], rd_fail = ErrEOF, rd_closed = False\<rparr>,
     Writer = \<lparr>wbuf = [], werr = None, sent = [0, 2, 0, 107, 49, 0, 2, 0, 107, 50],
               wr_fail = None, wr_closed = False\<rparr>\<rparr>)"
  by (simp add: sample_defs)

lemma sample_GetE_two_misses:
  "GetE sampleEnv sampleGet2 (sampleHandler [1, 0, 1, 0]) =
   ([DataOut \<lparr>rese_Miss = True, rese_Quiet = True, rese_Opaque = 5, rese_Flags = 0,
               rese_Exptime = 0, rese_Key = [107, 49], rese_Data = None\<rparr>,
     DataOut \<lparr>rese_Miss = True, rese_Quiet = False, rese_Opaque = 6, rese_Flags = 0,
               rese_Exptime = 0, rese_Key = [107, 50], rese_Data = None\<rparr>,
     CloseData, CloseError],
    [(None, 0, 0, Some ErrKeyNotFound), (None, 0, 0, Some ErrKeyNotFound)],
    Returned,
    \<lparr>Reader = \<lparr>rbuf = [], incoming = [], rd_fail = ErrEOF, rd_closed = False\<rparr>,
     Writer = \<lparr>wbuf = [], werr = None, sent = [64, 2, 0, 107, 49, 64, 2, 0, 107, 50],
               wr_fail = None, wr_closed = False\<rparr>\<rparr>)"
  by (simp add: sample_defs)

lemma sample_Get_short_Opaques:
  "Get sampleEnv sampleGetShort (sampleHandler [0, 1, 42, 1, 0]) =
   ([DataOut \<lparr>res_Miss = False, res_Quiet = True, res_Opaque = 5, res_Flags = 7,
               res_Key = [107, 49], res_Data = Some [42]\<rparr>,
     CloseData, CloseError],
    [(Some [42], 7, 0, None), (None, 0, 0, Some ErrKeyNotFound)],
    Panicked 1 1,
    \<lparr>Reader = \<lparr>rbuf = [], incoming = [], rd_fail = ErrEOF, rd_closed = False\<rparr>,
     Writer = \<lparr>wbuf = [], werr = None, sent = [0, 2, 0, 107, 49, 0, 2, 0, 107, 50],
               wr_fail = None, wr_closed = False\<rparr>\<rparr>)"
  by (simp add: sample_defs)

lemma sample_Get_short_fails_fast:
  "Get sampleEnv sampleGetShort (sampleHandler [0, 1, 42, 3, 0]) =
   ([DataOut \<lparr>res_Miss = False, res_Quiet = True, res_Opaque = 5, res_Flags = 7,
               res_Key = [107, 49], res_Data = Some [42]\<rparr>,
     ErrorOut (ErrStatus 3), CloseData, CloseError],
    [(Some [42], 7, 0, None), (None, 0, 0, Some (ErrStatus 3))],
    Returned,
    \<lparr>Reader = \<lparr>rbuf = [], incoming = [], rd_fail = ErrEOF, rd_closed = False\<rparr>,
     Writer = \<lparr>wbuf = [], werr = None, sent = [0, 2, 0, 107, 49, 0, 2, 0, 107, 50],
               wr_fail = None, wr_closed = False\<rparr>\<rparr>)"
  by (simp add: sample_defs)

lemma sample_GetE_short_Opaques:
  "GetE sampleEnv sampleGetShort (sampleHandler [0, 1, 42, 1, 0]) =
   ([DataOut \<lparr>rese_Miss = False, rese_Quiet = True, rese_Opaque = 5, rese_Flags = 7,
               rese_Exptime = 9, rese_Key = [107, 49], rese_Data = Some [42]\<rparr>,
     CloseData, CloseError],
    [(Some [42], 7, 9, None), (None, 0, 0, Some ErrKeyNotFound)],
    Panicked 1 1,
    \<lparr>Reader = \<lparr>rbuf = [], incoming = [], rd_fail = ErrEOF, rd_closed = False\<rparr>,
     Writer = \<lparr>wbuf = [], werr = None, sent = [64, 2, 0, 107, 49, 64, 2, 0, 107, 50],
               wr_fail = None, wr_closed = False\<rparr>\<rparr>)"
  by (simp add: sample_defs)

lemma sample_GetE_short_fails_fast:
  "GetE sampleEnv sampleGetShort (sampleHandler [0, 1, 42, 3, 0]) =
   ([DataOut \<lparr>rese_Miss = False, rese_Quiet = True, rese_Opaque = 5, rese_Flags = 7,
               rese_Exptime = 9, rese_Key = [107, 49], rese_Data = Some [42]\<rparr>,
     ErrorOut (ErrStatus 3), CloseData, CloseError],
    [(Some [42], 7, 9, None), (None, 0, 0, Some (ErrStatus 3))],
    Returned,
    \<lparr>Reader = \<lparr>rbuf = [], incoming = [], rd_fail = ErrEOF, rd_closed = False\<rparr>,
     Writer = \<lparr>wbuf = [], werr = None, sent = [64, 2, 0, 107, 49, 64, 2, 0, 107, 50],
               wr_fail = None, wr_closed = False\<rparr>\<rparr>)"
  by (simp add: sample_defs)

lemma sample_writable:
  "writable (Writer (rw (sampleHandler bs)))"
  "\<forall>rw1 b. writable (Writer rw1) \<longrightarrow> writable (Writer (snd (getLocal sampleEnv rw1 b)))"
  by (auto simp: writable_def sampleHandler_def sampleEnv_def sample_getLocal_def Flush_def
      conn_Write_def split: option.splits prod.splits sum.splits)

subsection \<open>The batched get: fail-fast\<close>

text \<open>
  Claim C2. In a run of \<open>Get\<close> or \<open>GetE\<close> on \<open>N\<close> keys whose \<open>k\<close>-th single-key
  read (\<open>1 \<le> k \<le> N\<close>) returns an error other than key-not-found: the events on the
  channels are exactly \<open>k - 1\<close> results on the data channel, then that one error on
  the error channel, then the close of the data channel and the close of the error
  channel; the task returns; it has made \<open>k\<close> reads and no more; and the whole run,
  the final state of the streams included, is the run of the request cut down to its
  first \<open>k\<close> keys, so the other \<open>N - k\<close> keys are never processed.
\<close>

theorem batched_get_fails_fast:
  assumes "1 \<le> k" and "k \<le> length (Keys cmd)" and "k \<le> length rds"
      and "result_err (rds ! (k - 1)) = Some e" and "e \<noteq> ErrKeyNotFound"
  shows "(Get env cmd h = (evs, rds, out, rw') \<longrightarrow>
            (\<exists>rs. evs = map DataOut rs @ [ErrorOut e, CloseData, CloseError] \<and> length rs = k - 1)
            \<and> length rds = k \<and> out = Returned
            \<and> Get env (cmd\<lparr>Keys := take k (Keys cmd)\<rparr>) h = (evs, rds, out, rw'))
       \<and> (GetE env cmd h = (evsE, rds, out, rw') \<longrightarrow>
            (\<exists>rs. evsE = map DataOut rs @ [ErrorOut e, CloseData, CloseError] \<and> length rs = k - 1)
            \<and> length rds = k \<and> out = Returned
            \<and> GetE env (cmd\<lparr>Keys := take k (Keys cmd)\<rparr>) h = (evsE, rds, out, rw'))"
proof (intro conjI impI)
  have i: "k - 1 < length rds" "Suc (k - 1) = k"
    using assms(1,3) by simp_all
  {
    assume run: "Get env cmd h = (evs, rds, out, rw')"
    then obtain evs0 where
      loop: "realHandleGet_loop env cmd 0 (Keys cmd) (rw h) = (evs0, rds, out, rw')"
      and evs: "evs = evs0 @ [CloseData, CloseError]"
      by (auto simp: Get_def realHandleGet_def split: prod.splits)
    note ff = realHandleGet_loop_fails_fast [OF loop i(1) assms(4,5)]
    from ff obtain rs where "evs0 = map DataOut rs @ [ErrorOut e]" "length rs = k - 1"
      by blast
    then have "evs = map DataOut rs @ [ErrorOut e, CloseData, CloseError] \<and> length rs = k - 1"
      using evs by simp
    then show "\<exists>rs. evs = map DataOut rs @ [ErrorOut e, CloseData, CloseError] \<and> length rs = k - 1" ..
    show "length rds = k" "out = Returned"
      using ff i(2) by simp_all
    show "Get env (cmd\<lparr>Keys := take k (Keys cmd)\<rparr>) h = (evs, rds, out, rw')"
      using ff i(2) evs
      by (simp add: Get_def realHandleGet_def realHandleGet_loop_Keys_update)
  }
  {
    assume run: "GetE env cmd h = (evsE, rds, out, rw')"
    then obtain evs0 where
      loop: "realHandleGetE_loop env cmd 0 (Keys cmd) (rw h) = (evs0, rds, out, rw')"
      and evs: "evsE = evs0 @ [CloseData, CloseError]"
      by (auto simp: GetE_def realHandleGetE_def split: prod.splits)
    note ff = realHandleGetE_loop_fails_fast [OF loop i(1) assms(4,5)]
    from ff obtain rs where "evs0 = map DataOut rs @ [ErrorOut e]" "length rs = k - 1"
      by blast
    then have "evsE = map DataOut rs @ [ErrorOut e, CloseData, CloseError] \<and> length rs = k - 1"
      using evs by simp
    then show "\<exists>rs. evsE = map DataOut rs @ [ErrorOut e, CloseData, CloseError] \<and> length rs = k - 1" ..
    show "length rds = k" "out = Returned"
      using ff i(2) by simp_all
    show "GetE env (cmd\<lparr>Keys := take k (Keys cmd)\<rparr>) h = (evsE, rds, out, rw')"
      using ff i(2) evs
      by (simp add: GetE_def realHandleGetE_def realHandleGetE_loop_Keys_update)
  }
qed

theorem batched_get_fails_fast_witness:
  "length (run_reads (Get sampleEnv sampleGet3 (sampleHandler [1, 0, 3, 0, 0, 0]))) = 2
   \<and> Get sampleEnv (sampleGet3\<lparr>Keys := take 2 (Keys sampleGet3)\<rparr>) (sampleHandler [1, 0, 3, 0, 0, 0])
       = Get sampleEnv sampleGet3 (sampleHandler [1, 0, 3, 0, 0, 0])
   \<and> length (run_reads (GetE sampleEnv sampleGet3 (sampleHandler [0, 1, 42, 9, 0, 0, 0]))) = 2
   \<and> GetE sampleEnv (sampleGet3\<lparr>Keys := take 2 (Keys sampleGet3)\<rparr>)
         (sampleHandler [0, 1, 42, 9, 0, 0, 0])
       = GetE sampleEnv sampleGet3 (sampleHandler [0, 1, 42, 9, 0, 0, 0])"
proof -
  let ?rds = "[(None, 0, 0, Some ErrKeyNotFound), (None, 0, 0, Some (ErrStatus 3))]
                :: getLocal_result list"
  let ?rdsE = "[(Some [42], 7, 9, None), (None, 0, 0, Some (ErrStatus 9))]
                :: getLocal_result list"
  have a: "(1::nat) \<le> 2" "2 \<le> length (Keys sampleGet3)"
    by simp_all
  have b: "2 \<le> length ?rds" "result_err (?rds ! (2 - 1)) = Some (ErrStatus 3)"
    "ErrStatus 3 \<noteq> ErrKeyNotFound"
    by simp_all
  have c: "2 \<le> length ?rdsE" "result_err (?rdsE ! (2 - 1)) = Some (ErrStatus 9)"
    "ErrStatus 9 \<noteq> ErrKeyNotFound"
    by simp_all
  note g = batched_get_fails_fast [OF a b, THEN conjunct1, rule_format, OF sample_Get_second_fails]
  note ge = batched_get_fails_fast [OF a c, THEN conjunct2, rule_format, OF sample_GetE_second_fails]
  show ?thesis
    using g ge by (simp add: sample_Get_second_fails sample_GetE_second_fails)
qed

subsection \<open>The batched get: a batch of misses\<close>

text \<open>
  Claim C7. Take a batched \<open>Get\<close> or \<open>GetE\<close> of \<open>N\<close> keys whose quiet flags and opaque
  tokens are parallel to the keys (one of each for every key), in which every key
  misses: the connection accepts the commands, and each single-key read that the task
  makes returns key-not-found. Then the task reads all \<open>N\<close> keys, and the events are
  exactly \<open>N\<close> miss results on the data channel, the \<open>i\<close>-th for the \<open>i\<close>-th key with its
  quiet flag and opaque token, then the close of the data channel and the close of the
  error channel; no error is emitted and the task returns.
\<close>

theorem batched_get_all_miss:
  assumes "length (Keys cmd) \<le> length (Quiet cmd)"
      and "length (Keys cmd) \<le> length (Opaques cmd)"
      and "writable (Writer (rw h))"
      and "\<forall>rw1 b. writable (Writer rw1) \<longrightarrow> writable (Writer (snd (getLocal env rw1 b)))"
      and "\<forall>r \<in> set rds. result_err r = Some ErrKeyNotFound"
  shows "(Get env cmd h = (evs, rds, out, rw') \<longrightarrow>
            evs = map (\<lambda>i. DataOut \<lparr>res_Miss = True, res_Quiet = Quiet cmd ! i,
                                     res_Opaque = Opaques cmd ! i,
                                     res_Flags = result_flags (rds ! i),
                                     res_Key = Keys cmd ! i, res_Data = None\<rparr>)
                      [0..<length (Keys cmd)]
                  @ [CloseData, CloseError]
            \<and> length rds = length (Keys cmd)
            \<and> out = Returned)
       \<and> (GetE env cmd h = (evsE, rds, out, rw') \<longrightarrow>
            evsE = map (\<lambda>i. DataOut \<lparr>rese_Miss = True, rese_Quiet = Quiet cmd ! i,
                                      rese_Opaque = Opaques cmd ! i,
                                      rese_Flags = result_flags (rds ! i),
                                      rese_Exptime = result_exp (rds ! i),
                                      rese_Key = Keys cmd ! i, rese_Data = None\<rparr>)
                      [0..<length (Keys cmd)]
                  @ [CloseData, CloseError]
            \<and> length rds = length (Keys cmd)
            \<and> out = Returned)"
proof (intro conjI impI)
  {
    assume "Get env cmd h = (evs, rds, out, rw')"
    then obtain evs0 where
      loop: "realHandleGet_loop env cmd 0 (Keys cmd) (rw h) = (evs0, rds, out, rw')"
      and evs: "evs = evs0 @ [CloseData, CloseError]"
      by (auto simp: Get_def realHandleGet_def split: prod.splits)
    have "\<forall>r \<in> set rds. hit_or_miss r"
      using assms(5) by (simp add: hit_or_miss_def)
    then have all: "length rds = length (Keys cmd)"
      using realHandleGet_loop_reads_all [OF loop assms(3,4)] assms(1,2) by simp
    note am = realHandleGet_loop_all_miss [OF loop all assms(5)]
    show "evs = map (\<lambda>i. DataOut \<lparr>res_Miss = True, res_Quiet = Quiet cmd ! i,
                                     res_Opaque = Opaques cmd ! i,
                                     res_Flags = result_flags (rds ! i),
                                     res_Key = Keys cmd ! i, res_Data = None\<rparr>)
                      [0..<length (Keys cmd)]
                  @ [CloseData, CloseError]"
      using am assms(1,2) evs by simp
    show "length rds = length (Keys cmd)"
      by (rule all)
    show "out = Returned"
      using am assms(1,2) by simp
  }
  {
    assume "GetE env cmd h = (evsE, rds, out, rw')"
    then obtain evs0 where
      loop: "realHandleGetE_loop env cmd 0 (Keys cmd) (rw h) = (evs0, rds, out, rw')"
      and evs: "evsE = evs0 @ [CloseData, CloseError]"
      by (auto simp: GetE_def realHandleGetE_def split: prod.splits)
    have "\<forall>r \<in> set rds. hit_or_miss r"
      using assms(5) by (simp add: hit_or_miss_def)
    then have all: "length rds = length (Keys cmd)"
      using realHandleGetE_loop_reads_all [OF loop assms(3,4)] assms(1,2) by simp
    note am = realHandleGetE_loop_all_miss [OF loop all assms(5)]
    show "evsE = map (\<lambda>i. DataOut \<lparr>rese_Miss = True, rese_Quiet = Quiet cmd ! i,
                                      rese_Opaque = Opaques cmd ! i,
                                      rese_Flags = result_flags (rds ! i),
                                      rese_Exptime = result_exp (rds ! i),
                                      rese_Key = Keys cmd ! i, rese_Data = None\<rparr>)
                      [0..<length (Keys cmd)]
                  @ [CloseData, CloseError]"
      using am assms(1,2) evs by simp
    show "length rds = length (Keys cmd)"
      by (rule all)
    show "out = Returned"
      using am assms(1,2) by simp
  }
qed

theorem batched_get_all_miss_witness:
  "Get sampleEnv sampleGet2 (sampleHandler [1, 0, 1, 0]) =
     ([DataOut \<lparr>res_Miss = True, res_Quiet = True, res_Opaque = 5, res_Flags = 0,
                 res_Key = [107, 49], res_Data = None\<rparr>,
       DataOut \<lparr>res_Miss = True, res_Quiet = False, res_Opaque = 6, res_Flags = 0,
                 res_Key = [107, 50], res_Data = None\<rparr>,
       CloseData, CloseError],
      [(None, 0, 0, Some ErrKeyNotFound), (None, 0, 0, Some ErrKeyNotFound)],
      Returned,
      \<lparr>Reader = \<lparr>rbuf = [], incoming = [], rd_fail = ErrEOF, rd_closed = False\<rparr>,
       Writer = \<lparr>wbuf = [], werr = None, sent = [0, 2, 0, 107, 49, 0, 2, 0, 107, 50],
                 wr_fail = None, wr_closed = False\<rparr>\<rparr>)
   \<and> run_events (Get sampleEnv sampleGet2 (sampleHandler [1, 0, 1, 0])) =
       map (\<lambda>i. DataOut \<lparr>res_Miss = True, res_Quiet = Quiet sampleGet2 ! i,
                           res_Opaque = Opaques sampleGet2 ! i, res_Flags = 0,
                           res_Key = Keys sampleGet2 ! i, res_Data = None\<rparr>) [0, 1]
       @ [CloseData, CloseError]
   \<and> run_events (GetE sampleEnv sampleGet2 (sampleHandler [1, 0, 1, 0])) =
       map (\<lambda>i. DataOut \<lparr>rese_Miss = True, rese_Quiet = Quiet sampleGet2 ! i,
                           rese_Opaque = Opaques sampleGet2 ! i, rese_Flags = 0,
                           rese_Exptime = 0,
                           rese_Key = Keys sampleGet2 ! i, rese_Data = None\<rparr>) [0, 1]
       @ [CloseData, CloseError]"
proof -
  let ?rds = "[(None, 0, 0, Some ErrKeyNotFound), (None, 0, 0, Some ErrKeyNotFound)]
                :: getLocal_result list"
  have a: "length (Keys sampleGet2) \<le> length (Quiet sampleGet2)"
    "length (Keys sampleGet2) \<le> length (Opaques sampleGet2)"
    by simp_all
  have b: "\<forall>r \<in> set ?rds. result_err r = Some ErrKeyNotFound"
    by simp
  note g = batched_get_all_miss [OF a sample_writable b, THEN conjunct1, rule_format,
      OF sample_Get_two_misses]
  note ge = batched_get_all_miss [OF a sample_writable b, THEN conjunct2, rule_format,
      OF sample_GetE_two_misses]
  have u: "[0..<2] = [0, 1]"
    by (simp add: upt_rec)
  show ?thesis
    using g ge by (simp add: sample_Get_two_misses sample_GetE_two_misses u)
qed

subsection \<open>A miss on one key\<close>

text \<open>
  Claim C4. \<open>GAT\<close> on an absent key (the command is written and the read returns
  key-not-found) returns no error and a miss result with a nil payload and the
  request's key and opaque token; a \<open>GATRequest\<close> supplies no quiet flag, and the
  result's is false. In a batched \<open>Get\<close> or \<open>GetE\<close> whose request supplies a quiet flag
  and an opaque token for the key at position \<open>i\<close>: when the read for that key returns
  key-not-found, the event at position \<open>i\<close> is a miss result on the data channel with
  a nil payload, that key, \<open>Quiet[i]\<close> and \<open>Opaques[i]\<close>, and every event before it
  is a result on the data channel, so no error has been emitted; and the read for that
  key is made whenever the connection accepts the commands and no read before it has
  failed with another error.
\<close>

theorem absent_key_gives_miss:
  "(WriteGATCmd env (Writer (rw h)) (gat_Key gat) (gat_Exptime gat) 0 = (None, w)
      \<and> getLocal env ((rw h)\<lparr>Writer := w\<rparr>) False = ((data, flags, exp, Some ErrKeyNotFound), rw1)
    \<longrightarrow> GAT env gat h =
          ((\<lparr>res_Miss = True, res_Quiet = False, res_Opaque = gat_Opaque gat,
             res_Flags = flags, res_Key = gat_Key gat, res_Data = None\<rparr>, None),
           h\<lparr>rw := rw1\<rparr>))
   \<and> (Get env cmd h = (evs, rds, out, rw')
      \<and> i < length (Quiet cmd) \<and> i < length (Opaques cmd)
    \<longrightarrow> (i < length rds \<and> rds ! i = (data, flags, exp, Some ErrKeyNotFound)
         \<longrightarrow> i < length (Keys cmd)
             \<and> evs ! i = DataOut \<lparr>res_Miss = True, res_Quiet = Quiet cmd ! i,
                               res_Opaque = Opaques cmd ! i, res_Flags = flags,
                               res_Key = Keys cmd ! i, res_Data = None\<rparr>
             \<and> (\<exists>rs. take i evs = map DataOut rs))
       \<and> (i < length (Keys cmd)
           \<and> writable (Writer (rw h))
           \<and> (\<forall>rw1 b. writable (Writer rw1)
                 \<longrightarrow> writable (Writer (snd (getLocal env rw1 b))))
           \<and> (\<forall>j<i. j < length rds \<longrightarrow> hit_or_miss (rds ! j))
         \<longrightarrow> i < length rds))
   \<and> (GetE env cmd h = (evsE, rds, out, rw')
      \<and> i < length (Quiet cmd) \<and> i < length (Opaques cmd)
    \<longrightarrow> (i < length rds \<and> rds ! i = (data, flags, exp, Some ErrKeyNotFound)
         \<longrightarrow> i < length (Keys cmd)
             \<and> evsE ! i = DataOut \<lparr>rese_Miss = True, rese_Quiet = Quiet cmd ! i,
                                rese_Opaque = Opaques cmd ! i, rese_Flags = flags,
                                rese_Exptime = exp,
                                rese_Key = Keys cmd ! i, rese_Data = None\<rparr>
             \<and> (\<exists>rs. take i evsE = map DataOut rs))
       \<and> (i < length (Keys cmd)
           \<and> writable (Writer (rw h))
           \<and> (\<forall>rw1 b. writable (Writer rw1)
                 \<longrightarrow> writable (Writer (snd (getLocal env rw1 b))))
           \<and> (\<forall>j<i. j < length rds \<longrightarrow> hit_or_miss (rds ! j))
         \<longrightarrow> i < length rds))"
proof -
  have gat: "(WriteGATCmd env (Writer (rw h)) (gat_Key gat) (gat_Exptime gat) 0 = (None, w)
      \<and> getLocal env ((rw h)\<lparr>Writer := w\<rparr>) False = ((data, flags, exp, Some ErrKeyNotFound), rw1)
    \<longrightarrow> GAT env gat h =
          ((\<lparr>res_Miss = True, res_Quiet = False, res_Opaque = gat_Opaque gat,
             res_Flags = flags, res_Key = gat_Key gat, res_Data = None\<rparr>, None),
           h\<lparr>rw := rw1\<rparr>))"
    by (simp add: GAT_def)
  have get: "(Get env cmd h = (evs, rds, out, rw')
      \<and> i < length (Quiet cmd) \<and> i < length (Opaques cmd)
    \<longrightarrow> (i < length rds \<and> rds ! i = (data, flags, exp, Some ErrKeyNotFound)
         \<longrightarrow> i < length (Keys cmd)
             \<and> evs ! i = DataOut \<lparr>res_Miss = True, res_Quiet = Quiet cmd ! i,
                               res_Opaque = Opaques cmd ! i, res_Flags = flags,
                               res_Key = Keys cmd ! i, res_Data = None\<rparr>
             \<and> (\<exists>rs. take i evs = map DataOut rs))
       \<and> (i < length (Keys cmd)
           \<and> writable (Writer (rw h))
           \<and> (\<forall>rw1 b. writable (Writer rw1)
                 \<longrightarrow> writable (Writer (snd (getLocal env rw1 b))))
           \<and> (\<forall>j<i. j < length rds \<longrightarrow> hit_or_miss (rds ! j))
         \<longrightarrow> i < length rds))"
  proof (intro impI conjI)
    assume a: "Get env cmd h = (evs, rds, out, rw')
      \<and> i < length (Quiet cmd) \<and> i < length (Opaques cmd)"
    then obtain evs0 where
      loop: "realHandleGet_loop env cmd 0 (Keys cmd) (rw h) = (evs0, rds, out, rw')"
      and evs: "evs = evs0 @ [CloseData, CloseError]"
      by (auto simp: Get_def realHandleGet_def split: prod.splits)
    {
      assume b: "i < length rds \<and> rds ! i = (data, flags, exp, Some ErrKeyNotFound)"
      have m: "i < length evs0 \<and> i < length (Keys cmd)
         \<and> evs0 ! i = DataOut \<lparr>res_Miss = True, res_Quiet = Quiet cmd ! i,
                               res_Opaque = Opaques cmd ! i, res_Flags = flags,
                               res_Key = Keys cmd ! i, res_Data = None\<rparr>
         \<and> (\<exists>rs. take i evs0 = map DataOut rs)"
        using realHandleGet_loop_miss [OF loop, of i data flags exp] a b by simp
      show "i < length (Keys cmd)"
        using m by simp
      show "evs ! i = DataOut \<lparr>res_Miss = True, res_Quiet = Quiet cmd ! i,
                               res_Opaque = Opaques cmd ! i, res_Flags = flags,
                               res_Key = Keys cmd ! i, res_Data = None\<rparr>"
        using m evs by (simp add: nth_append)
      show "\<exists>rs. take i evs = map DataOut rs"
        using m evs by simp
    }
    {
      assume c: "i < length (Keys cmd)
           \<and> writable (Writer (rw h))
           \<and> (\<forall>rw1 b. writable (Writer rw1)
                 \<longrightarrow> writable (Writer (snd (getLocal env rw1 b))))
           \<and> (\<forall>j<i. j < length rds \<longrightarrow> hit_or_miss (rds ! j))"
      show "i < length rds"
      proof (rule realHandleGet_loop_reaches [OF loop])
        show "writable (Writer (rw h))" using c by simp
        show "\<forall>rw1 b. writable (Writer rw1) \<longrightarrow> writable (Writer (snd (getLocal env rw1 b)))"
          using c by simp
        show "i < length (Keys cmd)" using c by simp
        show "0 + i \<le> length (Quiet cmd)" "0 + i \<le> length (Opaques cmd)"
          using a by simp_all
        show "\<forall>j<i. j < length rds \<longrightarrow> hit_or_miss (rds ! j)"
          using c by simp
      qed
    }
  qed
  have gete: "(GetE env cmd h = (evsE, rds, out, rw')
      \<and> i < length (Quiet cmd) \<and> i < length (Opaques cmd)
    \<longrightarrow> (i < length rds \<and> rds ! i = (data, flags, exp, Some ErrKeyNotFound)
         \<longrightarrow> i < length (Keys cmd)
             \<and> evsE ! i = DataOut \<lparr>rese_Miss = True, rese_Quiet = Quiet cmd ! i,
                                rese_Opaque = Opaques cmd ! i, rese_Flags = flags,
                                rese_Exptime = exp,
                                rese_Key = Keys cmd ! i, rese_Data = None\<rparr>
             \<and> (\<exists>rs. take i evsE = map DataOut rs))
       \<and> (i < length (Keys cmd)
           \<and> writable (Writer (rw h))
           \<and> (\<forall>rw1 b. writable (Writer rw1)
                 \<longrightarrow> writable (Writer (snd (getLocal env rw1 b))))
           \<and> (\<forall>j<i. j < length rds \<longrightarrow> hit_or_miss (rds ! j))
         \<longrightarrow> i < length rds))"
  proof (intro impI conjI)
    assume a: "GetE env cmd h = (evsE, rds, out, rw')
      \<and> i < length (Quiet cmd) \<and> i < length (Opaques cmd)"
    then obtain evs0 where
      loop: "realHandleGetE_loop env cmd 0 (Keys cmd) (rw h) = (evs0, rds, out, rw')"
      and evs: "evsE = evs0 @ [CloseData, CloseError]"
      by (auto simp: GetE_def realHandleGetE_def split: prod.splits)
    {
      assume b: "i < length rds \<and> rds ! i = (data, flags, exp, Some ErrKeyNotFound)"
      have m: "i < length evs0 \<and> i < length (Keys cmd)
         \<and> evs0 ! i = DataOut \<lparr>rese_Miss = True, rese_Quiet = Quiet cmd ! i,
                                rese_Opaque = Opaques cmd ! i, rese_Flags = flags,
                                rese_Exptime = exp,
                                rese_Key = Keys cmd ! i, rese_Data = None\<rparr>
         \<and> (\<exists>rs. take i evs0 = map DataOut rs)"
        using realHandleGetE_loop_miss [OF loop, of i data flags exp] a b by simp
      show "i < length (Keys cmd)"
        using m by simp
      show "evsE ! i = DataOut \<lparr>rese_Miss = True, rese_Quiet = Quiet cmd ! i,
                                rese_Opaque = Opaques cmd ! i, rese_Flags = flags,
                                rese_Exptime = exp,
                                rese_Key = Keys cmd ! i, rese_Data = None\<rparr>"
        using m evs by (simp add: nth_append)
      show "\<exists>rs. take i evsE = map DataOut rs"
        using m evs by simp
    }
    {
      assume c: "i < length (Keys cmd)
           \<and> writable (Writer (rw h))
           \<and> (\<forall>rw1 b. writable (Writer rw1)
                 \<longrightarrow> writable (Writer (snd (getLocal env rw1 b))))
           \<and> (\<forall>j<i. j < length rds \<longrightarrow> hit_or_miss (rds ! j))"
      show "i < length rds"
      proof (rule realHandleGetE_loop_reaches [OF loop])
        show "writable (Writer (rw h))" using c by simp
        show "\<forall>rw1 b. writable (Writer rw1) \<longrightarrow> writable (Writer (snd (getLocal env rw1 b)))"
          using c by simp
        show "i < length (Keys cmd)" using c by simp
        show "0 + i \<le> length (Quiet cmd)" "0 + i \<le> length (Opaques cmd)"
          using a by simp_all
        show "\<forall>j<i. j < length rds \<longrightarrow> hit_or_miss (rds ! j)"
          using c by simp
      qed
    }
  qed
  show ?thesis
    using gat get gete by blast
qed

theorem absent_key_gives_miss_witness:
  "fst (GAT sampleEnv sampleGAT (sampleHandler [1, 0]))
     = (\<lparr>res_Miss = True, res_Quiet = False, res_Opaque = 9, res_Flags = 0,
          res_Key = [107, 49], res_Data = None\<rparr>, None)
   \<and> run_events (Get sampleEnv sampleGet2 (sampleHandler [1, 0, 1, 0])) ! 1
     = DataOut \<lparr>res_Miss = True, res_Quiet = False, res_Opaque = 6, res_Flags = 0,
                res_Key = [107, 50], res_Data = None\<rparr>
   \<and> 1 < length (run_reads (Get sampleEnv sampleGet2 (sampleHandler [1, 0, 1, 0])))
   \<and> run_events (GetE sampleEnv sampleGet2 (sampleHandler [1, 0, 1, 0])) ! 1
     = DataOut \<lparr>rese_Miss = True, rese_Quiet = False, rese_Opaque = 6, rese_Flags = 0,
                rese_Exptime = 0, rese_Key = [107, 50], rese_Data = None\<rparr>
   \<and> 1 < length (run_reads (GetE sampleEnv sampleGet2 (sampleHandler [1, 0, 1, 0])))"
proof -
  let ?h1 = "sampleHandler [1, 0]"
  let ?h2 = "sampleHandler [1, 0, 1, 0]"
  let ?w = "\<lparr>wbuf = [29, 2, 0, 107, 49], werr = None, sent = [], wr_fail = None, wr_closed = False\<rparr>"
  let ?rw1 = "\<lparr>Reader = \<lparr>rbuf = [], incoming = [], rd_fail = ErrEOF, rd_closed = False\<rparr>,
              Writer = \<lparr>wbuf = [], werr = None, sent = [29, 2, 0, 107, 49],
                        wr_fail = None, wr_closed = False\<rparr>\<rparr>"
  let ?rds = "[(None, 0, 0, Some ErrKeyNotFound), (None, 0, 0, Some ErrKeyNotFound)]
                :: getLocal_result list"
  have a: "WriteGATCmd sampleEnv (Writer (rw ?h1)) (gat_Key sampleGAT) (gat_Exptime sampleGAT) 0 = (None, ?w)
      \<and> getLocal sampleEnv ((rw ?h1)\<lparr>Writer := ?w\<rparr>) False
          = ((None, 0, 0, Some ErrKeyNotFound), ?rw1)"
    by (simp add: sample_defs)
  have b: "(1::nat) < length (Quiet sampleGet2) \<and> (1::nat) < length (Opaques sampleGet2)"
    by simp
  have c: "(1::nat) < length ?rds \<and> ?rds ! 1 = (None, 0, 0, Some ErrKeyNotFound)"
    by simp
  have d: "(1::nat) < length (Keys sampleGet2)
           \<and> writable (Writer (rw ?h2))
           \<and> (\<forall>rw1 b. writable (Writer rw1)
                 \<longrightarrow> writable (Writer (snd (getLocal sampleEnv rw1 b))))
           \<and> (\<forall>j<1. j < length ?rds \<longrightarrow> hit_or_miss (?rds ! j))"
    using sample_writable by (simp add: hit_or_miss_def)
  note t = absent_key_gives_miss [where env = sampleEnv and h = "?h1" and gat = sampleGAT and w = "?w"
      and data = None and flags = 0 and exp = 0 and ?rw1.0 = "?rw1", THEN conjunct1, rule_format, OF a]
  note g = absent_key_gives_miss [where data = None and flags = 0 and exp = 0 and i = 1,
      THEN conjunct2, THEN conjunct1, rule_format, OF conjI [OF sample_Get_two_misses b]]
  note ge = absent_key_gives_miss [where data = None and flags = 0 and exp = 0 and i = 1,
      THEN conjunct2, THEN conjunct2, rule_format, OF conjI [OF sample_GetE_two_misses b]]
  note g1 = g [THEN conjunct1, rule_format, OF c]
  note g2 = g [THEN conjunct2, rule_format, OF d]
  note ge1 = ge [THEN conjunct1, rule_format, OF c]
  note ge2 = ge [THEN conjunct2, rule_format, OF d]
  show ?thesis
    using t g1 g2 ge1 ge2 by (simp add: sample_Get_two_misses sample_GetE_two_misses)
qed

subsection \<open>The batched get: indexing the parallel slices\<close>

text \<open>
  Claim C8 as stated fails: a request whose \<open>Quiet\<close> and \<open>Opaques\<close> are shorter than
  \<open>Keys\<close> does not always reach an index out of range. Here the only read fails with
  another error, the task emits it and returns, and no slice is indexed.
\<close>

theorem batched_get_short_slices_counterexample:
  "Get sampleEnv \<lparr>Keys = [[107, 49]], Opaques = [], Quiet = []\<rparr> (sampleHandler [3, 0]) =
   ([ErrorOut (ErrStatus 3), CloseData, CloseError],
    [(None, 0, 0, Some (ErrStatus 3))],
    Returned,
    \<lparr>Reader = \<lparr>rbuf = [], incoming = [], rd_fail = ErrEOF, rd_closed = False\<rparr>,
     Writer = \<lparr>wbuf = [], werr = None, sent = [0, 2, 0, 107, 49],
               wr_fail = None, wr_closed = False\<rparr>\<rparr>)"
  by (simp add: sample_defs)

text \<open>
  Claim C8, amended. The pipelines index \<open>Quiet\<close> and \<open>Opaques\<close> at each key's
  position without a length check, so they are safe only when both are at least as
  long as \<open>Keys\<close>: then the task never panics. For a request with a shorter \<open>Quiet\<close> or
  \<open>Opaques\<close>, with \<open>m\<close> the smaller of the two lengths, the task performs an index out
  of range, unless it fails fast first:
  \<^item> when the read for the key at position \<open>m\<close> is made and is a hit or a miss, the
    task panics with index \<open>m\<close> out of range for length \<open>m\<close>, after exactly \<open>m\<close> results
    and \<open>m + 1\<close> reads;
  \<^item> that is what happens whenever the connection accepts the commands and every read
    that the task makes is a hit or a miss;
  \<^item> and when the task does not panic, it has failed fast: it returns after emitting
    at most \<open>m\<close> results and then one error, which is the error of the last read
    (an error other than key-not-found) or comes with no read for its key (the command
    could not be written).
  In each case the deferred closes run.
\<close>

theorem batched_get_index_safety:
  assumes "m = min (length (Quiet cmd)) (length (Opaques cmd))"
  shows "(Get env cmd h = (evs, rds, out, rw') \<longrightarrow>
           (length (Keys cmd) \<le> m \<longrightarrow> out = Returned)
         \<and> (m < length (Keys cmd) \<longrightarrow>
              (m < length rds \<and> hit_or_miss (rds ! m) \<longrightarrow>
                 out = Panicked m m
                 \<and> (\<exists>rs. evs = map DataOut rs @ [CloseData, CloseError] \<and> length rs = m)
                 \<and> length rds = Suc m)
            \<and> (writable (Writer (rw h))
                \<and> (\<forall>rw1 b. writable (Writer rw1)
                      \<longrightarrow> writable (Writer (snd (getLocal env rw1 b))))
                \<and> (\<forall>r \<in> set rds. hit_or_miss r) \<longrightarrow>
                 out = Panicked m m
                 \<and> (\<exists>rs. evs = map DataOut rs @ [CloseData, CloseError] \<and> length rs = m)
                 \<and> length rds = Suc m)
            \<and> (out \<noteq> Panicked m m \<longrightarrow>
                 out = Returned
                 \<and> (\<exists>rs e. evs = map DataOut rs @ [ErrorOut e, CloseData, CloseError]
                       \<and> length rs \<le> m
                       \<and> (length rds = length rs
                          \<or> (length rds = Suc (length rs)
                              \<and> result_err (rds ! length rs) = Some e
                              \<and> e \<noteq> ErrKeyNotFound))))))
       \<and> (GetE env cmd h = (evsE, rds, out, rw') \<longrightarrow>
           (length (Keys cmd) \<le> m \<longrightarrow> out = Returned)
         \<and> (m < length (Keys cmd) \<longrightarrow>
              (m < length rds \<and> hit_or_miss (rds ! m) \<longrightarrow>
                 out = Panicked m m
                 \<and> (\<exists>rs. evsE = map DataOut rs @ [CloseData, CloseError] \<and> length rs = m)
                 \<and> length rds = Suc m)
            \<and> (writable (Writer (rw h))
                \<and> (\<forall>rw1 b. writable (Writer rw1)
                      \<longrightarrow> writable (Writer (snd (getLocal env rw1 b))))
                \<and> (\<forall>r \<in> set rds. hit_or_miss r) \<longrightarrow>
                 out = Panicked m m
                 \<and> (\<exists>rs. evsE = map DataOut rs @ [CloseData, CloseError] \<and> length rs = m)
                 \<and> length rds = Suc m)
            \<and> (out \<noteq> Panicked m m \<longrightarrow>
                 out = Returned
                 \<and> (\<exists>rs e. evsE = map DataOut rs @ [ErrorOut e, CloseData, CloseError]
                       \<and> length rs \<le> m
                       \<and> (length rds = length rs
                          \<or> (length rds = Suc (length rs)
                              \<and> result_err (rds ! length rs) = Some e
                              \<and> e \<noteq> ErrKeyNotFound))))))"
proof -
  have get: "(Get env cmd h = (evs, rds, out, rw') \<longrightarrow>
           (length (Keys cmd) \<le> m \<longrightarrow> out = Returned)
         \<and> (m < length (Keys cmd) \<longrightarrow>
              (m < length rds \<and> hit_or_miss (rds ! m) \<longrightarrow>
                 out = Panicked m m
                 \<and> (\<exists>rs. evs = map DataOut rs @ [CloseData, CloseError] \<and> length rs = m)
                 \<and> length rds = Suc m)
            \<and> (writable (Writer (rw h))
                \<and> (\<forall>rw1 b. writable (Writer rw1)
                      \<longrightarrow> writable (Writer (snd (getLocal env rw1 b))))
                \<and> (\<forall>r \<in> set rds. hit_or_miss r) \<longrightarrow>
                 out = Panicked m m
                 \<and> (\<exists>rs. evs = map DataOut rs @ [CloseData, CloseError] \<and> length rs = m)
                 \<and> length rds = Suc m)
            \<and> (out \<noteq> Panicked m m \<longrightarrow>
                 out = Returned
                 \<and> (\<exists>rs e. evs = map DataOut rs @ [ErrorOut e, CloseData, CloseError]
                       \<and> length rs \<le> m
                       \<and> (length rds = length rs
                          \<or> (length rds = Suc (length rs)
                              \<and> result_err (rds ! length rs) = Some e
                              \<and> e \<noteq> ErrKeyNotFound))))))"
  proof (intro impI)
    assume "Get env cmd h = (evs, rds, out, rw')"
    then obtain evs0 where
      loop: "realHandleGet_loop env cmd 0 (Keys cmd) (rw h) = (evs0, rds, out, rw')"
      and evs: "evs = evs0 @ [CloseData, CloseError]"
      by (auto simp: Get_def realHandleGet_def split: prod.splits)
    have safe: "out = Returned" if "length (Keys cmd) \<le> m"
      using realHandleGet_loop_in_range [OF loop] assms that by simp
    have panic: "out = Panicked m m
        \<and> (\<exists>rs. evs = map DataOut rs @ [CloseData, CloseError] \<and> length rs = m)
        \<and> length rds = Suc m"
      if "m < length rds \<and> hit_or_miss (rds ! m)"
    proof -
      have "out = Panicked m m \<and> (\<exists>rs. evs0 = map DataOut rs \<and> length rs = m)
          \<and> length rds = Suc m"
        using realHandleGet_loop_panics [OF loop assms, of m] that by simp
      then show ?thesis using evs by auto
    qed
    have reach: "m < length rds \<and> hit_or_miss (rds ! m)"
      if less: "m < length (Keys cmd)"
      and env: "writable (Writer (rw h))
                \<and> (\<forall>rw1 b. writable (Writer rw1)
                      \<longrightarrow> writable (Writer (snd (getLocal env rw1 b))))
                \<and> (\<forall>r \<in> set rds. hit_or_miss r)"
    proof -
      have "m < length rds"
      proof (rule realHandleGet_loop_reaches [OF loop])
        show "writable (Writer (rw h))" using env by simp
        show "\<forall>rw1 b. writable (Writer rw1) \<longrightarrow> writable (Writer (snd (getLocal env rw1 b)))"
          using env by simp
        show "m < length (Keys cmd)" by (rule less)
        show "0 + m \<le> length (Quiet cmd)" "0 + m \<le> length (Opaques cmd)"
          using assms by simp_all
        show "\<forall>j<m. j < length rds \<longrightarrow> hit_or_miss (rds ! j)"
          using env by simp
      qed
      then show ?thesis using env by simp
    qed
    have fast: "out = Returned
        \<and> (\<exists>rs e. evs = map DataOut rs @ [ErrorOut e, CloseData, CloseError]
              \<and> length rs \<le> m
              \<and> (length rds = length rs
                 \<or> (length rds = Suc (length rs)
                     \<and> result_err (rds ! length rs) = Some e
                     \<and> e \<noteq> ErrKeyNotFound)))"
      if less: "m < length (Keys cmd)" and np: "out \<noteq> Panicked m m"
    proof -
      have "(out = Panicked m m \<and> (\<exists>rs. evs0 = map DataOut rs \<and> 0 + length rs = m))
         \<or> (out = Returned \<and> (\<exists>rs e. evs0 = map DataOut rs @ [ErrorOut e] \<and> 0 + length rs \<le> m))"
        using realHandleGet_loop_out_of_range [OF loop assms] less by simp
      then obtain rs e where r: "out = Returned" "evs0 = map DataOut rs @ [ErrorOut e]"
        "length rs \<le> m"
        using np by auto
      have "length rds = length rs
          \<or> (length rds = Suc (length rs) \<and> result_err (rds ! length rs) = Some e
              \<and> e \<noteq> ErrKeyNotFound)"
        using realHandleGet_loop_stops_with_error [OF loop r(2)] by simp
      then have "evs = map DataOut rs @ [ErrorOut e, CloseData, CloseError]
              \<and> length rs \<le> m
              \<and> (length rds = length rs
                 \<or> (length rds = Suc (length rs)
                     \<and> result_err (rds ! length rs) = Some e
                     \<and> e \<noteq> ErrKeyNotFound))"
        using r evs by simp
      then show ?thesis using r(1) by blast
    qed
    show "(length (Keys cmd) \<le> m \<longrightarrow> out = Returned)
         \<and> (m < length (Keys cmd) \<longrightarrow>
              (m < length rds \<and> hit_or_miss (rds ! m) \<longrightarrow>
                 out = Panicked m m
                 \<and> (\<exists>rs. evs = map DataOut rs @ [CloseData, CloseError] \<and> length rs = m)
                 \<and> length rds = Suc m)
            \<and> (writable (Writer (rw h))
                \<and> (\<forall>rw1 b. writable (Writer rw1)
                      \<longrightarrow> writable (Writer (snd (getLocal env rw1 b))))
                \<and> (\<forall>r \<in> set rds. hit_or_miss r) \<longrightarrow>
                 out = Panicked m m
                 \<and> (\<exists>rs. evs = map DataOut rs @ [CloseData, CloseError] \<and> length rs = m)
                 \<and> length rds = Suc m)
            \<and> (out \<noteq> Panicked m m \<longrightarrow>
                 out = Returned
                 \<and> (\<exists>rs e. evs = map DataOut rs @ [ErrorOut e, CloseData, CloseError]
                       \<and> length rs \<le> m
                       \<and> (length rds = length rs
                          \<or> (length rds = Suc (length rs)
                              \<and> result_err (rds ! length rs) = Some e
                              \<and> e \<noteq> ErrKeyNotFound)))))"
      using safe panic reach fast by blast
  qed
  have gete: "(GetE env cmd h = (evsE, rds, out, rw') \<longrightarrow>
           (length (Keys cmd) \<le> m \<longrightarrow> out = Returned)
         \<and> (m < length (Keys cmd) \<longrightarrow>
              (m < length rds \<and> hit_or_miss (rds ! m) \<longrightarrow>
                 out = Panicked m m
                 \<and> (\<exists>rs. evsE = map DataOut rs @ [CloseData, CloseError] \<and> length rs = m)
                 \<and> length rds = Suc m)
            \<and> (writable (Writer (rw h))
                \<and> (\<forall>rw1 b. writable (Writer rw1)
                      \<longrightarrow> writable (Writer (snd (getLocal env rw1 b))))
                \<and> (\<forall>r \<in> set rds. hit_or_miss r) \<longrightarrow>
                 out = Panicked m m
                 \<and> (\<exists>rs. evsE = map DataOut rs @ [CloseData, CloseError] \<and> length rs = m)
                 \<and> length rds = Suc m)
            \<and> (out \<noteq> Panicked m m \<longrightarrow>
                 out = Returned
                 \<and> (\<exists>rs e. evsE = map DataOut rs @ [ErrorOut e, CloseData, CloseError]
                       \<and> length rs \<le> m
                       \<and> (length rds = length rs
                          \<or> (length rds = Suc (length rs)
                              \<and> result_err (rds ! length rs) = Some e
                              \<and> e \<noteq> ErrKeyNotFound))))))"
  proof (intro impI)
    assume "GetE env cmd h = (evsE, rds, out, rw')"
    then obtain evs0 where
      loop: "realHandleGetE_loop env cmd 0 (Keys cmd) (rw h) = (evs0, rds, out, rw')"
      and evs: "evsE = evs0 @ [CloseData, CloseError]"
      by (auto simp: GetE_def realHandleGetE_def split: prod.splits)
    have safe: "out = Returned" if "length (Keys cmd) \<le> m"
      using realHandleGetE_loop_in_range [OF loop] assms that by simp
    have panic: "out = Panicked m m
        \<and> (\<exists>rs. evsE = map DataOut rs @ [CloseData, CloseError] \<and> length rs = m)
        \<and> length rds = Suc m"
      if "m < length rds \<and> hit_or_miss (rds ! m)"
    proof -
      have "out = Panicked m m \<and> (\<exists>rs. evs0 = map DataOut rs \<and> length rs = m)
          \<and> length rds = Suc m"
        using realHandleGetE_loop_panics [OF loop assms, of m] that by simp
      then show ?thesis using evs by auto
    qed
    have reach: "m < length rds \<and> hit_or_miss (rds ! m)"
      if less: "m < length (Keys cmd)"
      and env: "writable (Writer (rw h))
                \<and> (\<forall>rw1 b. writable (Writer rw1)
                      \<longrightarrow> writable (Writer (snd (getLocal env rw1 b))))
                \<and> (\<forall>r \<in> set rds. hit_or_miss r)"
    proof -
      have "m < length rds"
      proof (rule realHandleGetE_loop_reaches [OF loop])
        show "writable (Writer (rw h))" using env by simp
        show "\<forall>rw1 b. writable (Writer rw1) \<longrightarrow> writable (Writer (snd (getLocal env rw1 b)))"
          using env by simp
        show "m < length (Keys cmd)" by (rule less)
        show "0 + m \<le> length (Quiet cmd)" "0 + m \<le> length (Opaques cmd)"
          using assms by simp_all
        show "\<forall>j<m. j < length rds \<longrightarrow> hit_or_miss (rds ! j)"
          using env by simp
      qed
      then show ?thesis using env by simp
    qed
    have fast: "out = Returned
        \<and> (\<exists>rs e. evsE = map DataOut rs @ [ErrorOut e, CloseData, CloseError]
              \<and> length rs \<le> m
              \<and> (length rds = length rs
                 \<or> (length rds = Suc (length rs)
                     \<and> result_err (rds ! length rs) = Some e
                     \<and> e \<noteq> ErrKeyNotFound)))"
      if less: "m < length (Keys cmd)" and np: "out \<noteq> Panicked m m"
    proof -
      have "(out = Panicked m m \<and> (\<exists>rs. evs0 = map DataOut rs \<and> 0 + length rs = m))
         \<or> (out = Returned \<and> (\<exists>rs e. evs0 = map DataOut rs @ [ErrorOut e] \<and> 0 + length rs \<le> m))"
        using realHandleGetE_loop_out_of_range [OF loop assms] less by simp
      then obtain rs e where r: "out = Returned" "evs0 = map DataOut rs @ [ErrorOut e]"
        "length rs \<le> m"
        using np by auto
      have "length rds = length rs
          \<or> (length rds = Suc (length rs) \<and> result_err (rds ! length rs) = Some e
              \<and> e \<noteq> ErrKeyNotFound)"
        using realHandleGetE_loop_stops_with_error [OF loop r(2)] by simp
      then have "evsE = map DataOut rs @ [ErrorOut e, CloseData, CloseError]
              \<and> length rs \<le> m
              \<and> (length rds = length rs
                 \<or> (length rds = Suc (length rs)
                     \<and> result_err (rds ! length rs) = Some e
                     \<and> e \<noteq> ErrKeyNotFound))"
        using r evs by simp
      then show ?thesis using r(1) by blast
    qed
    show "(length (Keys cmd) \<le> m \<longrightarrow> out = Returned)
         \<and> (m < length (Keys cmd) \<longrightarrow>
              (m < length rds \<and> hit_or_miss (rds ! m) \<longrightarrow>
                 out = Panicked m m
                 \<and> (\<exists>rs. evsE = map DataOut rs @ [CloseData, CloseError] \<and> length rs = m)
                 \<and> length rds = Suc m)
            \<and> (writable (Writer (rw h))
                \<and> (\<forall>rw1 b. writable (Writer rw1)
                      \<longrightarrow> writable (Writer (snd (getLocal env rw1 b))))
                \<and> (\<forall>r \<in> set rds. hit_or_miss r) \<longrightarrow>
                 out = Panicked m m
                 \<and> (\<exists>rs. evsE = map DataOut rs @ [CloseData, CloseError] \<and> length rs = m)
                 \<and> length rds = Suc m)
            \<and> (out \<noteq> Panicked m m \<longrightarrow>
                 out = Returned
                 \<and> (\<exists>rs e. evsE = map DataOut rs @ [ErrorOut e, CloseData, CloseError]
                       \<and> length rs \<le> m
                       \<and> (length rds = length rs
                          \<or> (length rds = Suc (length rs)
                              \<and> result_err (rds ! length rs) = Some e
                              \<and> e \<noteq> ErrKeyNotFound)))))"
      using safe panic reach fast by blast
  qed
  show ?thesis
    using get gete by (rule conjI)
qed

theorem batched_get_index_safety_witness:
  "run_outcome (Get sampleEnv sampleGet2 (sampleHandler [1, 0, 1, 0])) = Returned
   \<and> run_outcome (Get sampleEnv sampleGetShort (sampleHandler [0, 1, 42, 1, 0])) = Panicked 1 1
   \<and> length (run_reads (Get sampleEnv sampleGetShort (sampleHandler [0, 1, 42, 1, 0]))) = 2
   \<and> run_outcome (Get sampleEnv sampleGetShort (sampleHandler [0, 1, 42, 3, 0])) = Returned
   \<and> run_outcome (GetE sampleEnv sampleGet2 (sampleHandler [1, 0, 1, 0])) = Returned
   \<and> run_outcome (GetE sampleEnv sampleGetShort (sampleHandler [0, 1, 42, 1, 0])) = Panicked 1 1
   \<and> length (run_reads (GetE sampleEnv sampleGetShort (sampleHandler [0, 1, 42, 1, 0]))) = 2
   \<and> run_outcome (GetE sampleEnv sampleGetShort (sampleHandler [0, 1, 42, 3, 0])) = Returned"
proof -
  let ?rds = "[(Some [42], 7, 0, None), (None, 0, 0, Some ErrKeyNotFound)] :: getLocal_result list"
  let ?rdsE = "[(Some [42], 7, 9, None), (None, 0, 0, Some ErrKeyNotFound)] :: getLocal_result list"
  let ?h = "sampleHandler [0, 1, 42, 1, 0]"
  have a: "2 = min (length (Quiet sampleGet2)) (length (Opaques sampleGet2))"
    "length (Keys sampleGet2) \<le> 2"
    by simp_all
  have b: "1 = min (length (Quiet sampleGetShort)) (length (Opaques sampleGetShort))"
    "1 < length (Keys sampleGetShort)"
    by simp_all
  have c: "1 < length ?rds \<and> hit_or_miss (?rds ! 1)" "1 < length ?rdsE \<and> hit_or_miss (?rdsE ! 1)"
    by (simp_all add: hit_or_miss_def)
  have d: "writable (Writer (rw ?h))
      \<and> (\<forall>rw1 b. writable (Writer rw1) \<longrightarrow> writable (Writer (snd (getLocal sampleEnv rw1 b))))
      \<and> (\<forall>r \<in> set ?rds. hit_or_miss r)"
    "writable (Writer (rw ?h))
      \<and> (\<forall>rw1 b. writable (Writer rw1) \<longrightarrow> writable (Writer (snd (getLocal sampleEnv rw1 b))))
      \<and> (\<forall>r \<in> set ?rdsE. hit_or_miss r)"
    using sample_writable by (simp_all add: hit_or_miss_def)
  have e: "Returned \<noteq> Panicked 1 1"
    by simp
  note ok = batched_get_index_safety [OF a(1), THEN conjunct1, rule_format,
      OF sample_Get_two_misses, THEN conjunct1, rule_format, OF a(2)]
  note okE = batched_get_index_safety [OF a(1), THEN conjunct2, rule_format,
      OF sample_GetE_two_misses, THEN conjunct1, rule_format, OF a(2)]
  note sh = batched_get_index_safety [OF b(1), THEN conjunct1, rule_format,
      OF sample_Get_short_Opaques, THEN conjunct2, rule_format, OF b(2)]
  note shE = batched_get_index_safety [OF b(1), THEN conjunct2, rule_format,
      OF sample_GetE_short_Opaques, THEN conjunct2, rule_format, OF b(2)]
  note ff = batched_get_index_safety [OF b(1), THEN conjunct1, rule_format,
      OF sample_Get_short_fails_fast, THEN conjunct2, rule_format, OF b(2)]
  note ffE = batched_get_index_safety [OF b(1), THEN conjunct2, rule_format,
      OF sample_GetE_short_fails_fast, THEN conjunct2, rule_format, OF b(2)]
  note p1 = sh [THEN conjunct1, rule_format, OF c(1)]
  note p2 = sh [THEN conjunct2, THEN conjunct1, rule_format, OF d(1)]
  note p3 = ff [THEN conjunct2, THEN conjunct2, rule_format, OF e]
  note p1E = shE [THEN conjunct1, rule_format, OF c(2)]
  note p2E = shE [THEN conjunct2, THEN conjunct1, rule_format, OF d(2)]
  note p3E = ffE [THEN conjunct2, THEN conjunct2, rule_format, OF e]
  show ?thesis
    using ok okE p1 p2 p3 p1E p2E p3E
    by (simp add: sample_Get_two_misses sample_GetE_two_misses sample_Get_short_Opaques
        sample_GetE_short_Opaques sample_Get_short_fails_fast sample_GetE_short_fails_fast)
qed

end
